theory Spec2Isabelle
  imports Complex_Main "HOL-Library.AList"
begin

section \<open>JavaScript values\<close>

text \<open>
  The values that travel through the plugin manager and the HTTP handlers: request bodies,
  hook payloads, handler results and plugin configurations. A promise is tagged with the way
  it will settle; code that does not await it cannot look at the tag.
\<close>

datatype 'a settled = Fulfilled 'a | Rejected string

datatype jsval =
    JUndefined
  | JNull
  | JBool bool
  | JNum real
  | JStr string
  | JArr "jsval list"
  | JObj "(string \<times> jsval) list"
  | JPromise "jsval settled"

type_synonym config = "(string \<times> jsval) list"

text \<open>What \<^verbatim>\<open>if (v)\<close> and \<^verbatim>\<open>!v\<close> test.\<close>

fun truthy :: "jsval \<Rightarrow> bool" where
  "truthy JUndefined = False"
| "truthy JNull = False"
| "truthy (JBool b) = b"
| "truthy (JNum x) = (x \<noteq> 0)"
| "truthy (JStr s) = (s \<noteq> [])"
| "truthy (JArr xs) = True"
| "truthy (JObj kvs) = True"
| "truthy (JPromise p) = True"

text \<open>
  Exceptions that leave a function: a \<^verbatim>\<open>TypeError\<close> raised by the language itself, an
  \<^verbatim>\<open>Error\<close> with its message, or any other value that was thrown.
\<close>

datatype exn = TypeError string | JsError string | Thrown jsval

text \<open>
  What a call of a plugin-supplied function does: it returns a value, throws an
  \<^verbatim>\<open>Error\<close> object carrying a message (\<open>Throws\<close>), or throws a value that is not an
  \<^verbatim>\<open>Error\<close> object (\<open>ThrowsValue\<close>), as \<^verbatim>\<open>throw null\<close>, \<^verbatim>\<open>throw 'text'\<close> or
  \<^verbatim>\<open>throw {code: 1}\<close> do.
\<close>

datatype outcome = Returns jsval | Throws string | ThrowsValue jsval

subsection \<open>Property access\<close>

text \<open>
  \<^verbatim>\<open>v[key]\<close> for the keys the code reads from request bodies and from caught values
  (\<^verbatim>\<open>name\<close>, \<^verbatim>\<open>email\<close>, \<^verbatim>\<open>source\<close>, \<^verbatim>\<open>message\<close>, ...), none of which
  \<^verbatim>\<open>Object.prototype\<close> or a primitive wrapper defines: reading a property of \<^verbatim>\<open>undefined\<close>
  or \<^verbatim>\<open>null\<close> throws, an object gives its own value, anything else gives \<^verbatim>\<open>undefined\<close>.
\<close>

fun get_prop :: "jsval \<Rightarrow> string \<Rightarrow> exn + jsval" where
  "get_prop JUndefined k = Inl (TypeError ''Cannot read properties of undefined'')"
| "get_prop JNull k = Inl (TypeError ''Cannot read properties of null'')"
| "get_prop (JObj kvs) k = Inr (case map_of kvs k of Some v \<Rightarrow> v | None \<Rightarrow> JUndefined)"
| "get_prop v k = Inr JUndefined"

definition read_prop :: "(string \<times> jsval) list \<Rightarrow> string \<Rightarrow> jsval" where
  "read_prop kvs k = (case map_of kvs k of Some v \<Rightarrow> v | None \<Rightarrow> JUndefined)"

text \<open>\<^verbatim>\<open>data[0]\<close> on the \<^verbatim>\<open>data\<close> field of the store's reply.\<close>

fun index0 :: "jsval \<Rightarrow> exn + jsval" where
  "index0 JUndefined = Inl (TypeError ''Cannot read properties of undefined'')"
| "index0 JNull = Inl (TypeError ''Cannot read properties of null'')"
| "index0 (JArr xs) = Inr (case xs of [] \<Rightarrow> JUndefined | x # rest \<Rightarrow> x)"
| "index0 (JObj kvs) = Inr (case map_of kvs ''0'' of Some v \<Rightarrow> v | None \<Rightarrow> JUndefined)"
| "index0 (JStr s) = Inr (case s of [] \<Rightarrow> JUndefined | c # rest \<Rightarrow> JStr [c])"
| "index0 v = Inr JUndefined"

section \<open>The plugin manager\<close>

subsection \<open>Data\<close>

text \<open>
  The constructor creates \<^verbatim>\<open>this.hooks\<close> with seven own keys, each an array. No method adds or
  removes a key, so the table is indexed by the enumeration. A read \<^verbatim>\<open>this.hooks[hookName]\<close>
  of any other string goes to the prototype of the object literal, \<^verbatim>\<open>Object.prototype\<close>, whose
  standard members are listed in \<open>object_prototype_keys\<close>: each of them is a truthy value that is
  neither an array nor iterable.
\<close>

datatype hook_name =
  OnBooking | OnLead | OnPayment | OnMessage | OnAdTrack | OnTaskCreate | OnVehicleUpdate

definition hook_names :: "(string \<times> hook_name) list" where
  "hook_names =
     [(''onBooking'', OnBooking), (''onLead'', OnLead), (''onPayment'', OnPayment),
      (''onMessage'', OnMessage), (''onAdTrack'', OnAdTrack),
      (''onTaskCreate'', OnTaskCreate), (''onVehicleUpdate'', OnVehicleUpdate)]"

definition own_hook :: "string \<Rightarrow> hook_name option" where
  "own_hook h = map_of hook_names h"

definition object_prototype_keys :: "string list" where
  "object_prototype_keys =
     [''constructor'', ''__defineGetter__'', ''__defineSetter__'', ''hasOwnProperty'',
      ''__lookupGetter__'', ''__lookupSetter__'', ''isPrototypeOf'',
      ''propertyIsEnumerable'', ''toString'', ''valueOf'', ''__proto__'',
      ''toLocaleString'']"

text \<open>
  A hook function stored by a plugin under a hook name; nothing checks that it is callable.
  Every handler of one \<^verbatim>\<open>trigger\<close> call receives the same payload object and may change
  it, so a call gives its outcome together with the payload as it leaves it. (A payload
  that is a primitive cannot be changed; letting the second component be any value only
  makes the theorems cover more handlers than can exist.) Handlers are taken to act on the
  payload only: they do not call back into the plugin manager, and a result is recorded as
  the value the call returned.
\<close>

datatype hook_fn = Callable "jsval \<Rightarrow> outcome \<times> jsval" | NotCallable

record subscription =
  name :: string
  callback :: hook_fn

datatype hook_slot = OwnList "subscription list" | Inherited | Missing

text \<open>
  A plugin object: \<^verbatim>\<open>init\<close>, \<^verbatim>\<open>cleanup\<close> and \<^verbatim>\<open>updateConfig\<close> are present when
  \<^verbatim>\<open>typeof ... === 'function'\<close>; \<^verbatim>\<open>hooks\<close> is present when truthy, and then holds its own
  enumerable keys in the order of \<^verbatim>\<open>Object.keys\<close>.
\<close>

record plugin_instance =
  init :: "(config \<Rightarrow> outcome) option"
  cleanup :: "outcome option"
  updateConfig :: "(config \<Rightarrow> outcome) option"
  plugin_hooks :: "(string \<times> hook_fn) list option"

record registration =
  inst :: plugin_instance
  config :: config
  active :: bool

text \<open>
  The registry \<^verbatim>\<open>this.plugins\<close> starts empty and is written by \<^verbatim>\<open>register\<close> only. Plugin
  names are taken to be names that \<^verbatim>\<open>Object.prototype\<close> does not define, so a lookup gives
  the registered entry or nothing, and the registry is a finite map on the registered names.
  An entry, once stored, is a truthy object.
\<close>

record manager =
  plugins :: "string \<rightharpoonup> registration"
  activePlugins :: "string list"
  hooks :: "hook_name \<Rightarrow> subscription list"

text \<open>
  One entry of the sequence \<^verbatim>\<open>trigger\<close> returns: \<^verbatim>\<open>{plugin, result}\<close> or
  \<^verbatim>\<open>{plugin, error}\<close>, the error being whatever \<^verbatim>\<open>error.message\<close> gave.
\<close>

datatype entry_outcome = Result jsval | Error jsval

record trigger_result =
  plugin :: string
  outcome :: entry_outcome

text \<open>What an operation does besides returning: console output and calls into plugins.\<close>

datatype effect =
    ConsoleLog string
  | ConsoleWarn string
  | ConsoleError string
  | CallInit string config
  | CallCleanup string
  | CallUpdateConfig string config
  | CallHook string string jsval

subsection \<open>Operations\<close>

definition new_manager :: manager where
  "new_manager = \<lparr>plugins = Map.empty, activePlugins = [], hooks = (\<lambda>h. [])\<rparr>"

definition hooks_get :: "manager \<Rightarrow> string \<Rightarrow> hook_slot" where
  "hooks_get s h =
     (case own_hook h of
        Some k \<Rightarrow> OwnList (hooks s k)
      | None \<Rightarrow> if h \<in> set object_prototype_keys then Inherited else Missing)"

definition register :: "manager \<Rightarrow> string \<Rightarrow> plugin_instance \<Rightarrow> config \<Rightarrow> manager \<times> effect list" where
  "register s n p cfg =
     (s\<lparr>plugins := (plugins s)(n \<mapsto> \<lparr>inst = p, config = cfg, active = False\<rparr>)\<rparr>,
      (case plugins s n of
         Some old \<Rightarrow> [ConsoleWarn (''Plugin '' @ n @ '' is already registered. Overwriting...'')]
       | None \<Rightarrow> [])
      @ [ConsoleLog (''Plugin '' @ n @ '' registered successfully.'')])"

text \<open>
  The \<^verbatim>\<open>forEach\<close> over the plugin's hook keys. A key of the enumeration appends a subscription;
  a key inherited from \<^verbatim>\<open>Object.prototype\<close> passes the truthiness test and fails at
  \<^verbatim>\<open>push\<close>, leaving the subscriptions made so far in place; any other key is skipped.
\<close>

fun subscribe ::
  "string \<Rightarrow> (string \<times> hook_fn) list \<Rightarrow> (hook_name \<Rightarrow> subscription list)
     \<Rightarrow> exn option \<times> (hook_name \<Rightarrow> subscription list)" where
  "subscribe n [] tbl = (None, tbl)"
| "subscribe n ((k, cb) # rest) tbl =
     (case own_hook k of
        Some h \<Rightarrow> subscribe n rest (tbl(h := tbl h @ [\<lparr>name = n, callback = cb\<rparr>]))
      | None \<Rightarrow>
          if k \<in> set object_prototype_keys
          then (Some (TypeError ''this.hooks[hookName].push is not a function''), tbl)
          else subscribe n rest tbl)"

text \<open>
  The keys \<^verbatim>\<open>Object.keys(plugin.instance.hooks)\<close> visits, each with the value stored under
  it; none when the plugin has no \<^verbatim>\<open>hooks\<close>. A key occurs once in an object.
\<close>

definition hook_entries :: "plugin_instance \<Rightarrow> (string \<times> hook_fn) list" where
  "hook_entries p = (case plugin_hooks p of None \<Rightarrow> [] | Some hs \<Rightarrow> AList.clearjunk hs)"

definition activate :: "manager \<Rightarrow> string \<Rightarrow> (exn + bool) \<times> manager \<times> effect list" where
  "activate s n =
     (case plugins s n of
        None \<Rightarrow> (Inr False, s, [ConsoleError (''Plugin '' @ n @ '' is not registered.'')])
      | Some p \<Rightarrow>
          (case (case init (inst p) of
                   None \<Rightarrow> (None, [])
                 | Some f \<Rightarrow>
                     (case f (config p) of
                        Throws m \<Rightarrow> (Some (JsError m), [CallInit n (config p)])
                      | ThrowsValue v \<Rightarrow> (Some (Thrown v), [CallInit n (config p)])
                      | Returns v \<Rightarrow> (None, [CallInit n (config p)]))) of
             (Some e, effs) \<Rightarrow> (Inl e, s, effs)
           | (None, effs) \<Rightarrow>
               (case subscribe n (hook_entries (inst p)) (hooks s) of
                  (Some e, tbl) \<Rightarrow> (Inl e, s\<lparr>hooks := tbl\<rparr>, effs)
                | (None, tbl) \<Rightarrow>
                    (Inr True,
                     s\<lparr>plugins := (plugins s)(n \<mapsto> p\<lparr>active := True\<rparr>),
                       activePlugins := activePlugins s @ [n],
                       hooks := tbl\<rparr>,
                     effs @ [ConsoleLog (''Plugin '' @ n @ '' activated successfully.'')]))))"

definition deactivate :: "manager \<Rightarrow> string \<Rightarrow> (exn + bool) \<times> manager \<times> effect list" where
  "deactivate s n =
     (case plugins s n of
        None \<Rightarrow>
          (Inr False, s, [ConsoleError (''Plugin '' @ n @ '' is not active or not registered.'')])
      | Some p \<Rightarrow>
          if \<not> active p
          then (Inr False, s,
                [ConsoleError (''Plugin '' @ n @ '' is not active or not registered.'')])
          else
            (let s1 = s\<lparr>hooks := (\<lambda>h. filter (\<lambda>hook. name hook \<noteq> n) (hooks s h))\<rparr>
             in case cleanup (inst p) of
                  Some (Throws m) \<Rightarrow> (Inl (JsError m), s1, [CallCleanup n])
                | Some (ThrowsValue v) \<Rightarrow> (Inl (Thrown v), s1, [CallCleanup n])
                | c \<Rightarrow>
                    (Inr True,
                     s1\<lparr>plugins := (plugins s)(n \<mapsto> p\<lparr>active := False\<rparr>),
                        activePlugins := filter (\<lambda>pluginName. pluginName \<noteq> n) (activePlugins s)\<rparr>,
                     (case c of None \<Rightarrow> [] | Some r \<Rightarrow> [CallCleanup n])
                     @ [ConsoleLog (''Plugin '' @ n @ '' deactivated successfully.'')])))"

text \<open>
  The call \<^verbatim>\<open>hook.callback(data)\<close>. Calling a value that is not a function throws a
  \<^verbatim>\<open>TypeError\<close>, an \<^verbatim>\<open>Error\<close> object with a message, and leaves the payload alone.
\<close>

definition invoke :: "hook_fn \<Rightarrow> jsval \<Rightarrow> outcome \<times> jsval" where
  "invoke cb d =
     (case cb of
        Callable f \<Rightarrow> f d
      | NotCallable \<Rightarrow> (Throws ''hook.callback is not a function'', d))"

text \<open>
  One turn of the \<^verbatim>\<open>for ... of\<close> loop of \<^verbatim>\<open>trigger\<close>: the call inside \<^verbatim>\<open>try\<close>, its
  \<^verbatim>\<open>catch\<close>, and the entry pushed onto \<^verbatim>\<open>results\<close>. The \<^verbatim>\<open>catch\<close> block logs and then
  reads \<^verbatim>\<open>error.message\<close>; that read is not inside any \<^verbatim>\<open>try\<close>, so when the caught
  value is \<^verbatim>\<open>null\<close> or \<^verbatim>\<open>undefined\<close> the \<^verbatim>\<open>TypeError\<close> of the read leaves the turn.
  The second component is the payload as the handler left it.
\<close>

definition run_hook ::
  "string \<Rightarrow> jsval \<Rightarrow> subscription \<Rightarrow> (exn + trigger_result) \<times> jsval \<times> effect list" where
  "run_hook hookName d hook =
     (case invoke (callback hook) d of
        (Returns result, d') \<Rightarrow>
          (Inr \<lparr>plugin = name hook, outcome = Result result\<rparr>, d',
           [CallHook (name hook) hookName d])
      | (Throws message, d') \<Rightarrow>
          (Inr \<lparr>plugin = name hook, outcome = Error (JStr message)\<rparr>, d',
           [CallHook (name hook) hookName d,
            ConsoleError (''Error in plugin '' @ name hook @ '' for hook '' @ hookName @ '':'')])
      | (ThrowsValue v, d') \<Rightarrow>
          (case get_prop v ''message'' of
             Inl x \<Rightarrow>
               (Inl x, d',
                [CallHook (name hook) hookName d,
                 ConsoleError (''Error in plugin '' @ name hook @ '' for hook '' @ hookName @ '':'')])
           | Inr message \<Rightarrow>
               (Inr \<lparr>plugin = name hook, outcome = Error message\<rparr>, d',
                [CallHook (name hook) hookName d,
                 ConsoleError
                   (''Error in plugin '' @ name hook @ '' for hook '' @ hookName @ '':'')])))"

text \<open>
  The loop: the turns run in order on the one payload; an exception that leaves a turn
  leaves the loop, and the entries collected so far are lost with it.
\<close>

fun run_hooks ::
  "string \<Rightarrow> jsval \<Rightarrow> subscription list
     \<Rightarrow> (exn + trigger_result list) \<times> jsval \<times> effect list" where
  "run_hooks hookName d [] = (Inr [], d, [])"
| "run_hooks hookName d (hook # rest) =
     (case run_hook hookName d hook of
        (Inl x, d', effs) \<Rightarrow> (Inl x, d', effs)
      | (Inr r, d', effs) \<Rightarrow>
          (case run_hooks hookName d' rest of
             (Inl x, d'', effs') \<Rightarrow> (Inl x, d'', effs @ effs')
           | (Inr rs, d'', effs') \<Rightarrow> (Inr (r # rs), d'', effs @ effs')))"

text \<open>
  \<^verbatim>\<open>trigger(hookName, data = {})\<close>: the default applies when \<^verbatim>\<open>data\<close> is \<^verbatim>\<open>undefined\<close>.
  The manager is not changed, so the returned value (or the exception) and the effects are
  given; \<open>payload_after\<close> is what the caller's \<^verbatim>\<open>data\<close> argument holds after the call.
\<close>

definition default_data :: "jsval \<Rightarrow> jsval" where
  "default_data data0 = (if data0 = JUndefined then JObj [] else data0)"

definition trigger :: "manager \<Rightarrow> string \<Rightarrow> jsval \<Rightarrow> (exn + trigger_result list) \<times> effect list" where
  "trigger s hookName data0 =
     (let d = default_data data0
      in case hooks_get s hookName of
           Missing \<Rightarrow> (Inr [], [ConsoleError (''Hook '' @ hookName @ '' does not exist.'')])
         | Inherited \<Rightarrow> (Inl (TypeError ''this.hooks[hookName] is not iterable''), [])
         | OwnList subs \<Rightarrow>
             (let (results, d', effs) = run_hooks hookName d subs in (results, effs)))"

definition payload_after :: "manager \<Rightarrow> string \<Rightarrow> jsval \<Rightarrow> jsval" where
  "payload_after s hookName data0 =
     (if data0 = JUndefined then JUndefined
      else case hooks_get s hookName of
             OwnList subs \<Rightarrow> fst (snd (run_hooks hookName data0 subs))
           | other \<Rightarrow> data0)"

definition getActivePlugins :: "manager \<Rightarrow> string list" where
  "getActivePlugins s = activePlugins s"

definition getPluginConfig :: "manager \<Rightarrow> string \<Rightarrow> config option \<times> effect list" where
  "getPluginConfig s n =
     (case plugins s n of
        None \<Rightarrow> (None, [ConsoleError (''Plugin '' @ n @ '' is not registered.'')])
      | Some p \<Rightarrow> (Some (config p), []))"

text \<open>
  Object spread \<^verbatim>\<open>{...a, ...b}\<close>: the keys of \<^verbatim>\<open>a\<close> keep their places, a key of \<^verbatim>\<open>b\<close>
  overwrites the value in place or is appended.
\<close>

definition spread :: "config \<Rightarrow> config \<Rightarrow> config" where
  "spread a b = fold (\<lambda>(k, v). AList.update k v) (AList.clearjunk b) (AList.clearjunk a)"

definition updatePluginConfig ::
  "manager \<Rightarrow> string \<Rightarrow> config \<Rightarrow> (exn + bool) \<times> manager \<times> effect list" where
  "updatePluginConfig s n cfg =
     (case plugins s n of
        None \<Rightarrow> (Inr False, s, [ConsoleError (''Plugin '' @ n @ '' is not registered.'')])
      | Some p \<Rightarrow>
          (let merged = spread (config p) cfg;
               s1 = s\<lparr>plugins := (plugins s)(n \<mapsto> p\<lparr>config := merged\<rparr>)\<rparr>
           in if active p
              then (case updateConfig (inst p) of
                      None \<Rightarrow> (Inr True, s1, [])
                    | Some f \<Rightarrow>
                        (case f merged of
                           Throws m \<Rightarrow> (Inl (JsError m), s1, [CallUpdateConfig n merged])
                         | ThrowsValue v \<Rightarrow> (Inl (Thrown v), s1, [CallUpdateConfig n merged])
                         | Returns v \<Rightarrow> (Inr True, s1, [CallUpdateConfig n merged])))
              else (Inr True, s1, [])))"

subsection \<open>Notions for stating what the dispatcher does\<close>

text \<open>
  The entry that one turn of the loop pushes for a subscription on a given payload, or the
  exception that leaves the turn, as \<open>run_hook\<close> gives them.
\<close>

definition entry_of :: "jsval \<Rightarrow> subscription \<Rightarrow> exn + trigger_result" where
  "entry_of d hook = fst (run_hook [] d hook)"

text \<open>
  The sequence the loop returns for a list of subscriptions on a given payload, or the
  exception that leaves it, as \<open>run_hooks\<close> gives them.
\<close>

definition entries_of :: "jsval \<Rightarrow> subscription list \<Rightarrow> exn + trigger_result list" where
  "entries_of d subs = fst (run_hooks [] d subs)"

text \<open>A handler call that throws \<^verbatim>\<open>null\<close> or \<^verbatim>\<open>undefined\<close>.\<close>

definition throws_nullish :: "outcome \<Rightarrow> bool" where
  "throws_nullish r = (r = ThrowsValue JNull \<or> r = ThrowsValue JUndefined)"

text \<open>
  The payload after the handlers of a list have run on it in order, and the payload that
  the handler at position \<open>i\<close> receives.
\<close>

definition payload_through :: "jsval \<Rightarrow> subscription list \<Rightarrow> jsval" where
  "payload_through d subs = foldl (\<lambda>d' hook. snd (invoke (callback hook) d')) d subs"

definition payload_at :: "jsval \<Rightarrow> subscription list \<Rightarrow> nat \<Rightarrow> jsval" where
  "payload_at d subs i = payload_through d (take i subs)"

section \<open>The lead and booking entry points\<close>

subsection \<open>The environment of a request\<close>

text \<open>
  The record store answers \<^verbatim>\<open>insert(...).select()\<close> with a rejection or with
  \<^verbatim>\<open>{data, error}\<close>. The clock and the random generator are read once each where the code
  reads them: \<open>now_iso\<close> is \<^verbatim>\<open>new Date().toISOString()\<close>, \<open>now_ms\<close> is \<^verbatim>\<open>Date.now()\<close>,
  \<open>random_draw\<close> is \<^verbatim>\<open>Math.floor(Math.random() * 10000)\<close>.
\<close>

datatype insert_outcome = InsertRejects string | InsertResolves jsval jsval

record env =
  now_iso :: string
  now_ms :: nat
  random_draw :: nat
  store_insert :: "string \<Rightarrow> jsval \<Rightarrow> insert_outcome"

record request =
  http_method :: string
  body :: jsval

record response =
  status :: nat
  json :: jsval

text \<open>
  What a request does to its collaborators, in order: the insert it sends to the store and
  the hook it triggers, with what \<open>trigger\<close> gave back. The vendor notifications that follow
  the trigger are each wrapped in their own \<^verbatim>\<open>try/catch\<close>, return nothing and are left out.
\<close>

datatype io_event =
    InsertCall string jsval
  | Triggered string jsval "exn + trigger_result list"

subsection \<open>Validation\<close>

fun validate_fields :: "string list \<Rightarrow> jsval \<Rightarrow> exn + bool" where
  "validate_fields [] v = Inr True"
| "validate_fields (f # fs) v =
     (case get_prop v f of
        Inl e \<Rightarrow> Inl e
      | Inr x \<Rightarrow> if \<not> truthy x then Inr False else validate_fields fs v)"

definition validateLeadData :: "jsval \<Rightarrow> exn + bool" where
  "validateLeadData leadData = validate_fields [''name'', ''email''] leadData"

definition validateBookingData :: "jsval \<Rightarrow> exn + bool" where
  "validateBookingData bookingData =
     validate_fields
       [''vehicleId'', ''pickupDate'', ''returnDate'', ''pickupLocation'', ''returnLocation'',
        ''first-name'', ''last-name'', ''email'', ''phone'']
       bookingData"

subsection \<open>Booking references\<close>

fun decimal :: "nat \<Rightarrow> string" where
  "decimal n =
     (if n < 10 then [''0123456789'' ! n]
      else decimal (n div 10) @ [''0123456789'' ! (n mod 10)])"

definition slice_last :: "nat \<Rightarrow> string \<Rightarrow> string" where
  "slice_last k s = drop (length s - k) s"

definition padStart :: "nat \<Rightarrow> char \<Rightarrow> string \<Rightarrow> string" where
  "padStart k c s = replicate (k - length s) c @ s"

definition generateBookingReference :: "env \<Rightarrow> string" where
  "generateBookingReference e =
     ''AT-'' @ slice_last 6 (decimal (now_ms e)) @ padStart 4 (CHR ''0'') (decimal (random_draw e))"

subsection \<open>Processing\<close>

text \<open>
  \<^verbatim>\<open>triggerIntegrations\<close>: the call of \<open>trigger\<close> sits inside a \<^verbatim>\<open>try\<close> whose \<^verbatim>\<open>catch\<close> only
  logs, so nothing leaves it.
\<close>

definition triggerIntegrations :: "manager \<Rightarrow> string \<Rightarrow> jsval \<Rightarrow> io_event list" where
  "triggerIntegrations s hookName saved =
     [Triggered hookName saved (fst (trigger s hookName saved))]"

text \<open>
  \<open>processLead\<close> and \<open>processBooking\<close> receive a body that passed validation, which only an
  object does; they work on its properties. An assignment overwrites a key in place or
  appends it. The saved row is the object handed to the hooks, so the response carries it
  as the handlers left it.
\<close>

definition processLead ::
  "env \<Rightarrow> manager \<Rightarrow> (string \<times> jsval) list \<Rightarrow> (exn + jsval) \<times> io_event list" where
  "processLead e s leadData =
     (let l1 = AList.update ''created_at'' (JStr (now_iso e)) leadData;
          l2 = (if \<not> truthy (read_prop l1 ''source'')
                then AList.update ''source'' (JStr ''website'') l1 else l1)
      in case store_insert e ''leads'' (JObj l2) of
           InsertRejects m \<Rightarrow> (Inl (JsError m), [InsertCall ''leads'' (JObj l2)])
         | InsertResolves rows err \<Rightarrow>
             if truthy err
             then (Inl (JsError ''Failed to save lead''), [InsertCall ''leads'' (JObj l2)])
             else
               (case index0 rows of
                  Inl x \<Rightarrow> (Inl x, [InsertCall ''leads'' (JObj l2)])
                | Inr savedLead \<Rightarrow>
                    (Inr (JObj [(''success'', JBool True),
                                (''lead'', payload_after s ''onLead'' savedLead)]),
                     InsertCall ''leads'' (JObj l2) # triggerIntegrations s ''onLead'' savedLead)))"

definition processBooking ::
  "env \<Rightarrow> manager \<Rightarrow> (string \<times> jsval) list \<Rightarrow> (exn + jsval) \<times> io_event list" where
  "processBooking e s bookingData =
     (let b1 = (if \<not> truthy (read_prop bookingData ''reference'')
                then AList.update ''reference'' (JStr (generateBookingReference e)) bookingData
                else bookingData);
          b2 = AList.update ''created_at'' (JStr (now_iso e)) b1
      in case store_insert e ''bookings'' (JObj b2) of
           InsertRejects m \<Rightarrow> (Inl (JsError m), [InsertCall ''bookings'' (JObj b2)])
         | InsertResolves rows err \<Rightarrow>
             if truthy err
             then (Inl (JsError ''Failed to save booking''), [InsertCall ''bookings'' (JObj b2)])
             else
               (case index0 rows of
                  Inl x \<Rightarrow> (Inl x, [InsertCall ''bookings'' (JObj b2)])
                | Inr savedBooking \<Rightarrow>
                    (Inr (JObj [(''success'', JBool True),
                                (''booking'', payload_after s ''onBooking'' savedBooking)]),
                     InsertCall ''bookings'' (JObj b2)
                     # triggerIntegrations s ''onBooking'' savedBooking)))"

subsection \<open>The HTTP handlers\<close>

definition error_response :: "nat \<Rightarrow> string \<Rightarrow> response" where
  "error_response code msg = \<lparr>status = code, json = JObj [(''error'', JStr msg)]\<rparr>"

text \<open>
  The exported handler: method check, then inside \<^verbatim>\<open>try\<close> the validation and the
  processing; whatever is thrown there becomes the 500 response. The last case of the
  inner \<open>case\<close> is never taken: a body that passes validation is an object.
\<close>

definition lead_handler :: "env \<Rightarrow> manager \<Rightarrow> request \<Rightarrow> response \<times> io_event list" where
  "lead_handler e s req =
     (if http_method req \<noteq> ''POST'' then (error_response 405 ''Method not allowed'', [])
      else
        (case validateLeadData (body req) of
           Inl x \<Rightarrow> (error_response 500 ''Internal server error'', [])
         | Inr False \<Rightarrow> (error_response 400 ''Invalid lead data'', [])
         | Inr True \<Rightarrow>
             (case body req of
                JObj leadData \<Rightarrow>
                  (case processLead e s leadData of
                     (Inl x, evs) \<Rightarrow> (error_response 500 ''Internal server error'', evs)
                   | (Inr result, evs) \<Rightarrow> (\<lparr>status = 200, json = result\<rparr>, evs))
              | other \<Rightarrow> (error_response 500 ''Internal server error'', []))))"

definition booking_handler :: "env \<Rightarrow> manager \<Rightarrow> request \<Rightarrow> response \<times> io_event list" where
  "booking_handler e s req =
     (if http_method req \<noteq> ''POST'' then (error_response 405 ''Method not allowed'', [])
      else
        (case validateBookingData (body req) of
           Inl x \<Rightarrow> (error_response 500 ''Internal server error'', [])
         | Inr False \<Rightarrow> (error_response 400 ''Invalid booking data'', [])
         | Inr True \<Rightarrow>
             (case body req of
                JObj bookingData \<Rightarrow>
                  (case processBooking e s bookingData of
                     (Inl x, evs) \<Rightarrow> (error_response 500 ''Internal server error'', evs)
                   | (Inr result, evs) \<Rightarrow> (\<lparr>status = 200, json = result\<rparr>, evs))
              | other \<Rightarrow> (error_response 500 ''Internal server error'', []))))"

section \<open>Example plugins and managers\<close>

text \<open>Registering a plugin and activating it at once, keeping the manager only.\<close>

definition install :: "manager \<Rightarrow> string \<Rightarrow> plugin_instance \<Rightarrow> config \<Rightarrow> manager" where
  "install s n p cfg = fst (snd (activate (fst (register s n p cfg)) n))"

definition ok_plugin :: plugin_instance where
  "ok_plugin =
     \<lparr>init = Some (\<lambda>cfg. Returns JUndefined),
      cleanup = Some (Returns JUndefined),
      updateConfig = Some (\<lambda>cfg. Returns JUndefined),
      plugin_hooks =
        Some [(''onBooking'', Callable (\<lambda>d. (Returns (JObj [(''success'', JBool True)]), d)))]\<rparr>"

definition throwing_plugin :: plugin_instance where
  "throwing_plugin =
     \<lparr>init = None,
      cleanup = None,
      updateConfig = None,
      plugin_hooks = Some [(''onBooking'', Callable (\<lambda>d. (Throws ''boom'', d)))]\<rparr>"

text \<open>A plugin whose handler is an \<^verbatim>\<open>async function\<close>, as the repository's own plugins are.\<close>

definition async_plugin :: plugin_instance where
  "async_plugin =
     \<lparr>init = None,
      cleanup = None,
      updateConfig = None,
      plugin_hooks =
        Some [(''onBooking'', Callable (\<lambda>d. (Returns (JPromise (Rejected ''timeout'')), d)))]\<rparr>"

text \<open>A handler that does \<^verbatim>\<open>throw null\<close>.\<close>

definition null_thrower_plugin :: plugin_instance where
  "null_thrower_plugin =
     \<lparr>init = None,
      cleanup = None,
      updateConfig = None,
      plugin_hooks = Some [(''onBooking'', Callable (\<lambda>d. (ThrowsValue JNull, d)))]\<rparr>"

text \<open>
  A handler that sets \<^verbatim>\<open>data.flagged = true\<close> and then throws, and a handler that returns
  \<^verbatim>\<open>data.flagged\<close>.
\<close>

definition marking_plugin :: plugin_instance where
  "marking_plugin =
     \<lparr>init = None,
      cleanup = None,
      updateConfig = None,
      plugin_hooks =
        Some [(''onBooking'',
               Callable (\<lambda>d. (Throws ''boom'',
                               case d of
                                 JObj kvs \<Rightarrow> JObj (AList.update ''flagged'' (JBool True) kvs)
                               | v \<Rightarrow> v)))]\<rparr>"

definition reader_plugin :: plugin_instance where
  "reader_plugin =
     \<lparr>init = None,
      cleanup = None,
      updateConfig = None,
      plugin_hooks =
        Some [(''onBooking'',
               Callable (\<lambda>d. (Returns (case d of JObj kvs \<Rightarrow> read_prop kvs ''flagged''
                                                | v \<Rightarrow> JUndefined),
                               d)))]\<rparr>"

definition null_thrower_manager :: manager where
  "null_thrower_manager =
     install (install (install new_manager ''crm'' ok_plugin []) ''mail'' null_thrower_plugin [])
       ''fleet'' async_plugin []"

definition marking_manager :: manager where
  "marking_manager =
     install (install new_manager ''audit'' marking_plugin []) ''reader'' reader_plugin []"

definition quiet_manager :: manager where
  "quiet_manager =
     install (install new_manager ''audit'' throwing_plugin []) ''reader'' reader_plugin []"



definition three_plugins :: manager where
  "three_plugins =
     install (install (install new_manager ''crm'' ok_plugin []) ''mail'' throwing_plugin [])
       ''fleet'' async_plugin []"

definition init_fails_plugin :: plugin_instance where
  "init_fails_plugin =
     \<lparr>init = Some (\<lambda>cfg. Throws ''missing api key''),
      cleanup = None,
      updateConfig = None,
      plugin_hooks = Some [(''onLead'', Callable (\<lambda>d. (Returns JNull, d)))]\<rparr>"

definition cleanup_fails_plugin :: plugin_instance where
  "cleanup_fails_plugin =
     \<lparr>init = None,
      cleanup = Some (Throws ''socket closed''),
      updateConfig = None,
      plugin_hooks = Some [(''onLead'', Callable (\<lambda>d. (Returns JNull, d)))]\<rparr>"


definition init_fails_manager :: manager where
  "init_fails_manager = fst (register new_manager ''sms'' init_fails_plugin [])"

definition cleanup_fails_manager :: manager where
  "cleanup_fails_manager = install new_manager ''chat'' cleanup_fails_plugin []"

definition keyed_manager :: manager where
  "keyed_manager =
     install new_manager ''uchat'' ok_plugin [(''apiKey'', JStr ''y''), (''flowId'', JStr ''z'')]"

definition one_registered :: manager where
  "one_registered = fst (register new_manager ''crm'' ok_plugin [])"

text \<open>A store that persists every row and gives it an id, a store that is down, and two requests.\<close>

definition accepting_store :: "string \<Rightarrow> jsval \<Rightarrow> insert_outcome" where
  "accepting_store tbl row =
     InsertResolves
       (JArr [case row of JObj kvs \<Rightarrow> JObj ((''id'', JNum 1) # kvs) | v \<Rightarrow> v]) JNull"

definition failing_store :: "string \<Rightarrow> jsval \<Rightarrow> insert_outcome" where
  "failing_store tbl row =
     InsertResolves JNull (JObj [(''message'', JStr ''connection refused'')])"

definition env_ok :: env where
  "env_ok =
     \<lparr>now_iso = ''2024-01-01T00:00:00.000Z'', now_ms = 1704067200000, random_draw = 42,
      store_insert = accepting_store\<rparr>"

definition env_down :: env where
  "env_down = env_ok\<lparr>store_insert := failing_store\<rparr>"

definition jane_request :: request where
  "jane_request =
     \<lparr>http_method = ''POST'',
      body = JObj [(''name'', JStr ''Jane''), (''email'', JStr ''jane@x.com'')]\<rparr>"

definition no_email_request :: request where
  "no_email_request = \<lparr>http_method = ''POST'', body = JObj [(''name'', JStr ''Jane'')]\<rparr>"

definition booking_request :: request where
  "booking_request =
     \<lparr>http_method = ''POST'',
      body = JObj [(''vehicleId'', JStr ''v7''), (''pickupDate'', JStr ''2024-02-01''),
                   (''returnDate'', JStr ''2024-02-03''), (''pickupLocation'', JStr ''Penang''),
                   (''returnLocation'', JStr ''Penang''), (''first-name'', JStr ''Jane''),
                   (''last-name'', JStr ''Doe''), (''email'', JStr ''jane@x.com''),
                   (''phone'', JStr ''60123456789''), (''reference'', JStr ''AT-0000010042'')]\<rparr>"

definition null_body_request :: request where
  "null_body_request = \<lparr>http_method = ''POST'', body = JNull\<rparr>"

section \<open>What the specification asks of asynchronous handlers\<close>

text \<open>
  Following the specification's words, not the code: the entry of a handler is its settled
  outcome, so a promise counts as the value it fulfils with or as the error it rejects with.
\<close>

definition settled_outcome :: "outcome \<Rightarrow> entry_outcome" where
  "settled_outcome r =
     (case r of
        Throws m \<Rightarrow> Error (JStr m)
      | ThrowsValue v \<Rightarrow> Error (case get_prop v ''message'' of Inl x \<Rightarrow> JUndefined | Inr m \<Rightarrow> m)
      | Returns (JPromise (Fulfilled v)) \<Rightarrow> Result v
      | Returns (JPromise (Rejected m)) \<Rightarrow> Error (JStr m)
      | Returns v \<Rightarrow> Result v)"

definition settled_entry :: "jsval \<Rightarrow> subscription \<Rightarrow> trigger_result" where
  "settled_entry d hook =
     \<lparr>plugin = name hook, outcome = settled_outcome (fst (invoke (callback hook) d))\<rparr>"

section \<open>Dispatch\<close>

lemma fst_run_hook: "fst (run_hook h d hook) = entry_of d hook"
  by (simp add: run_hook_def entry_of_def split: prod.splits outcome.splits sum.splits)

lemma payload_run_hook: "fst (snd (run_hook h d hook)) = snd (invoke (callback hook) d)"
  by (simp add: run_hook_def split: prod.splits outcome.splits sum.splits)

lemma entry_of_eq:
  "entry_of d hook =
     (case fst (invoke (callback hook) d) of
        Returns v \<Rightarrow> Inr \<lparr>plugin = name hook, outcome = Result v\<rparr>
      | Throws m \<Rightarrow> Inr \<lparr>plugin = name hook, outcome = Error (JStr m)\<rparr>
      | ThrowsValue v \<Rightarrow>
          (case get_prop v ''message'' of
             Inl x \<Rightarrow> Inl x
           | Inr m \<Rightarrow> Inr \<lparr>plugin = name hook, outcome = Error m\<rparr>))"
  by (simp add: run_hook_def entry_of_def split: prod.splits outcome.splits sum.splits)

lemma get_prop_Inl: "(\<exists>x. get_prop v k = Inl x) \<longleftrightarrow> v = JNull \<or> v = JUndefined"
  by (cases v) simp_all

lemma entry_of_Inr_iff:
  "(\<exists>r. entry_of d hook = Inr r) \<longleftrightarrow> \<not> throws_nullish (fst (invoke (callback hook) d))"
proof (cases "fst (invoke (callback hook) d)")
  case (Returns v)
  then show ?thesis by (simp add: entry_of_eq throws_nullish_def)
next
  case (Throws m)
  then show ?thesis by (simp add: entry_of_eq throws_nullish_def)
next
  case (ThrowsValue v)
  then show ?thesis
    by (cases v) (simp_all add: entry_of_eq throws_nullish_def)
qed

lemma entry_of_plugin: "entry_of d hook = Inr r \<Longrightarrow> plugin r = name hook"
  by (auto simp: entry_of_eq split: outcome.splits sum.splits)

lemma fst_run_hooks: "fst (run_hooks h d subs) = entries_of d subs"
proof (induction subs arbitrary: d)
  case Nil
  then show ?case by (simp add: entries_of_def)
next
  case (Cons hook rest)
  have a: "fst (run_hook h d hook) = fst (run_hook [] d hook)"
    by (simp add: fst_run_hook)
  have b: "fst (snd (run_hook h d hook)) = fst (snd (run_hook [] d hook))"
    by (simp add: payload_run_hook)
  obtain r1 d1 e1 where h1: "run_hook h d hook = (r1, d1, e1)" by (cases "run_hook h d hook")
  obtain r2 d2 e2 where h2: "run_hook [] d hook = (r2, d2, e2)" by (cases "run_hook [] d hook")
  from a b h1 h2 have eq: "r2 = r1" "d2 = d1" by simp_all
  have ih: "fst (run_hooks h d1 rest) = fst (run_hooks [] d1 rest)"
    using Cons.IH[of d1] by (simp add: entries_of_def)
  show ?case
    using h1 h2 eq ih
    by (cases r1) (auto simp: entries_of_def split: prod.splits sum.splits)
qed

lemma entries_of_Nil: "entries_of d [] = Inr []"
  by (simp add: entries_of_def)

lemma entries_of_Cons:
  "entries_of d (hook # rest) =
     (case entry_of d hook of
        Inl x \<Rightarrow> Inl x
      | Inr r \<Rightarrow>
          (case entries_of (snd (invoke (callback hook) d)) rest of
             Inl x \<Rightarrow> Inl x
           | Inr rs \<Rightarrow> Inr (r # rs)))"
proof -
  obtain r1 d1 e1 where h1: "run_hook [] d hook = (r1, d1, e1)" by (cases "run_hook [] d hook")
  then have r: "entry_of d hook = r1" and p: "snd (invoke (callback hook) d) = d1"
    using payload_run_hook[of "[]" d hook] by (simp_all add: entry_of_def)
  show ?thesis
    unfolding r p
    using h1 by (cases r1) (auto simp: entries_of_def split: prod.splits sum.splits)
qed

lemma trigger_own:
  "own_hook hookName = Some h \<Longrightarrow>
   fst (trigger s hookName d) = entries_of (default_data d) (hooks s h)"
  by (simp add: trigger_def hooks_get_def case_prod_beta fst_run_hooks Let_def)


lemma payload_at_0: "payload_at d subs 0 = d"
  by (simp add: payload_at_def payload_through_def)

lemma payload_at_Cons_Suc:
  "payload_at d (hook # rest) (Suc i) = payload_at (snd (invoke (callback hook) d)) rest i"
  by (simp add: payload_at_def payload_through_def)

lemma payload_at_Suc:
  "i < length subs \<Longrightarrow>
   payload_at d subs (Suc i) = snd (invoke (callback (subs ! i)) (payload_at d subs i))"
  by (simp add: payload_at_def payload_through_def take_Suc_conv_app_nth)

lemma entries_of_Inr_nth:
  "entries_of d subs = Inr rs \<Longrightarrow>
   length rs = length subs
   \<and> (\<forall>i < length subs. entry_of (payload_at d subs i) (subs ! i) = Inr (rs ! i))"
proof (induction subs arbitrary: d rs)
  case Nil
  then show ?case by (simp add: entries_of_Nil)
next
  case (Cons hook rest)
  from Cons.prems obtain r rs' where
    r: "entry_of d hook = Inr r"
    and rest: "entries_of (snd (invoke (callback hook) d)) rest = Inr rs'"
    and rs: "rs = r # rs'"
    by (auto simp: entries_of_Cons split: sum.splits)
  from Cons.IH[OF rest] have
    len: "length rs' = length rest"
    and nth: "\<forall>i < length rest.
        entry_of (payload_at (snd (invoke (callback hook) d)) rest i) (rest ! i) = Inr (rs' ! i)"
    by simp_all
  have "entry_of (payload_at d (hook # rest) i) ((hook # rest) ! i) = Inr (rs ! i)"
    if "i < length (hook # rest)" for i
  proof (cases i)
    case 0
    then show ?thesis using r rs by (simp add: payload_at_0)
  next
    case (Suc j)
    with that nth rs show ?thesis by (simp add: payload_at_Cons_Suc)
  qed
  with len rs show ?case by simp
qed

lemma entries_of_returns:
  "\<forall>i < length subs.
      \<not> throws_nullish (fst (invoke (callback (subs ! i)) (payload_at d subs i))) \<Longrightarrow>
   \<exists>rs. entries_of d subs = Inr rs"
proof (induction subs arbitrary: d)
  case Nil
  then show ?case by (simp add: entries_of_Nil)
next
  case (Cons hook rest)
  from Cons.prems have "\<not> throws_nullish (fst (invoke (callback hook) d))"
    by (auto simp: payload_at_0 dest: spec[of _ 0])
  then obtain r where r: "entry_of d hook = Inr r"
    using entry_of_Inr_iff by blast
  have "\<forall>i < length rest.
      \<not> throws_nullish
          (fst (invoke (callback (rest ! i)) (payload_at (snd (invoke (callback hook) d)) rest i)))"
  proof (intro allI impI)
    fix i assume "i < length rest"
    with Cons.prems have
      "\<not> throws_nullish (fst (invoke (callback ((hook # rest) ! Suc i))
                                (payload_at d (hook # rest) (Suc i))))"
      by (metis Suc_less_eq length_Cons)
    then show "\<not> throws_nullish
          (fst (invoke (callback (rest ! i)) (payload_at (snd (invoke (callback hook) d)) rest i)))"
      by (simp add: payload_at_Cons_Suc)
  qed
  from Cons.IH[OF this] obtain rs where
    "entries_of (snd (invoke (callback hook) d)) rest = Inr rs" by blast
  with r show ?case by (simp add: entries_of_Cons)
qed


lemma entries_of_plugins:
  "entries_of d subs = Inr rs \<Longrightarrow> map plugin rs = map name subs"
proof (induction subs arbitrary: d rs)
  case Nil
  then show ?case by (simp add: entries_of_Nil)
next
  case (Cons hook rest)
  then show ?case
    by (auto simp: entries_of_Cons entry_of_plugin split: sum.splits)
qed

lemma own_hook_onBooking: "own_hook ''onBooking'' = Some OnBooking"
  by (simp add: own_hook_def hook_names_def)

lemma own_hook_onLead: "own_hook ''onLead'' = Some OnLead"
  by (simp add: own_hook_def hook_names_def)

lemmas build_defs =
  install_def register_def activate_def new_manager_def hook_entries_def own_hook_def
  hook_names_def

lemmas run_defs =
  entries_of_Cons entries_of_Nil entry_of_eq invoke_def default_data_def

lemma hooks_three_plugins:
  "hooks three_plugins OnBooking =
     [\<lparr>name = ''crm'', callback = Callable (\<lambda>d. (Returns (JObj [(''success'', JBool True)]), d))\<rparr>,
      \<lparr>name = ''mail'', callback = Callable (\<lambda>d. (Throws ''boom'', d))\<rparr>,
      \<lparr>name = ''fleet'', callback = Callable (\<lambda>d. (Returns (JPromise (Rejected ''timeout'')), d))\<rparr>]"
  by (simp add: three_plugins_def build_defs ok_plugin_def throwing_plugin_def async_plugin_def)

lemma trigger_three_plugins:
  "fst (trigger three_plugins ''onBooking'' JNull) =
     Inr [\<lparr>plugin = ''crm'', outcome = Result (JObj [(''success'', JBool True)])\<rparr>,
          \<lparr>plugin = ''mail'', outcome = Error (JStr ''boom'')\<rparr>,
          \<lparr>plugin = ''fleet'', outcome = Result (JPromise (Rejected ''timeout''))\<rparr>]"
  by (simp add: trigger_own[OF own_hook_onBooking] hooks_three_plugins run_defs)

lemma payload_at_update:
  assumes k: "k < length subs"
    and same: "snd (invoke cb (payload_at d subs k)) =
               snd (invoke (callback (subs ! k)) (payload_at d subs k))"
  shows "i \<le> length subs \<Longrightarrow>
         payload_at d (subs[k := (subs ! k)\<lparr>callback := cb\<rparr>]) i = payload_at d subs i"
proof (induction i)
  case 0
  then show ?case by (simp add: payload_at_0)
next
  case (Suc i)
  let ?subs' = "subs[k := (subs ! k)\<lparr>callback := cb\<rparr>]"
  from Suc.prems have i: "i < length subs" by simp
  with Suc.IH have ih: "payload_at d ?subs' i = payload_at d subs i" by simp
  have "payload_at d ?subs' (Suc i) = snd (invoke (callback (?subs' ! i)) (payload_at d ?subs' i))"
    using i by (simp add: payload_at_Suc)
  also have "\<dots> = snd (invoke (callback (subs ! i)) (payload_at d subs i))"
  proof (cases "i = k")
    case True
    with k same ih show ?thesis by simp
  next
    case False
    with ih show ?thesis by simp
  qed
  also have "\<dots> = payload_at d subs (Suc i)"
    using i by (simp add: payload_at_Suc)
  finally show ?case .
qed

text \<open>
  When a handler throws \<^verbatim>\<open>null\<close> or \<^verbatim>\<open>undefined\<close>, \<open>trigger\<close> throws.
\<close>

lemma trigger_throws_on_nullish:
  assumes own: "own_hook hookName = Some h"
    and i: "i < length (hooks s h)"
    and nullish: "throws_nullish
                    (fst (invoke (callback (hooks s h ! i))
                            (payload_at (default_data d) (hooks s h) i)))"
  shows "\<exists>x. fst (trigger s hookName d) = Inl x"
proof (cases "fst (trigger s hookName d)")
  case (Inl x)
  then show ?thesis by blast
next
  case (Inr rs)
  then have "entries_of (default_data d) (hooks s h) = Inr rs"
    using trigger_own[OF own, of s d] by simp
  from entries_of_Inr_nth[OF this] i
  have "\<exists>r. entry_of (payload_at (default_data d) (hooks s h) i) (hooks s h ! i) = Inr r"
    by blast
  with nullish show ?thesis
    using entry_of_Inr_iff by blast
qed

text \<open>
  C1 fails on two inputs. A handler that does \<^verbatim>\<open>throw null\<close>: the \<^verbatim>\<open>catch\<close> block reads
  \<^verbatim>\<open>error.message\<close> of \<^verbatim>\<open>null\<close>, and the \<^verbatim>\<open>TypeError\<close> of that read leaves \<open>trigger\<close>,
  which returns no sequence. A handler that sets a field of the payload before it throws:
  the entry of the handler after it is not the one that handler gets when the failing
  handler throws the same error without touching the payload.
\<close>

theorem trigger_failure_counterexample:
  "fst (trigger null_thrower_manager ''onBooking'' (JObj [])) =
     Inl (TypeError ''Cannot read properties of null'')
   \<and> fst (trigger marking_manager ''onBooking'' (JObj [])) =
       Inr [\<lparr>plugin = ''audit'', outcome = Error (JStr ''boom'')\<rparr>,
            \<lparr>plugin = ''reader'', outcome = Result (JBool True)\<rparr>]
   \<and> fst (trigger quiet_manager ''onBooking'' (JObj [])) =
       Inr [\<lparr>plugin = ''audit'', outcome = Error (JStr ''boom'')\<rparr>,
            \<lparr>plugin = ''reader'', outcome = Result JUndefined\<rparr>]"
proof -
  have h1: "hooks null_thrower_manager OnBooking =
     [\<lparr>name = ''crm'', callback = Callable (\<lambda>d. (Returns (JObj [(''success'', JBool True)]), d))\<rparr>,
      \<lparr>name = ''mail'', callback = Callable (\<lambda>d. (ThrowsValue JNull, d))\<rparr>,
      \<lparr>name = ''fleet'', callback = Callable (\<lambda>d. (Returns (JPromise (Rejected ''timeout'')), d))\<rparr>]"
    by (simp add: null_thrower_manager_def build_defs ok_plugin_def null_thrower_plugin_def
        async_plugin_def)
  have t1: "fst (trigger null_thrower_manager ''onBooking'' (JObj [])) =
     Inl (TypeError ''Cannot read properties of null'')"
    by (simp add: trigger_own[OF own_hook_onBooking] h1 run_defs)
  have t2: "fst (trigger marking_manager ''onBooking'' (JObj [])) =
       Inr [\<lparr>plugin = ''audit'', outcome = Error (JStr ''boom'')\<rparr>,
            \<lparr>plugin = ''reader'', outcome = Result (JBool True)\<rparr>]"
    by (simp add: trigger_own[OF own_hook_onBooking] marking_manager_def build_defs
        marking_plugin_def reader_plugin_def run_defs read_prop_def)
  have t3: "fst (trigger quiet_manager ''onBooking'' (JObj [])) =
       Inr [\<lparr>plugin = ''audit'', outcome = Error (JStr ''boom'')\<rparr>,
            \<lparr>plugin = ''reader'', outcome = Result JUndefined\<rparr>]"
    by (simp add: trigger_own[OF own_hook_onBooking] quiet_manager_def build_defs
        throwing_plugin_def reader_plugin_def run_defs read_prop_def)
  from t1 t2 t3 show ?thesis by simp
qed

text \<open>
  C1, amended. On a hook of the enumeration with N subscriptions none of whose handlers
  throws \<^verbatim>\<open>null\<close> or \<^verbatim>\<open>undefined\<close>, and whose k-th handler throws an \<^verbatim>\<open>Error\<close> with
  message m: \<open>trigger\<close> returns a sequence of length N in subscription order; its k-th
  entry is the plugin's name with the error m; every entry is the outcome of its own
  handler on the payload as the handlers before it left it; and replacing the k-th handler
  by any other that leaves the payload as the k-th did (and does not throw \<^verbatim>\<open>null\<close> or
  \<^verbatim>\<open>undefined\<close>) leaves all other entries as they were. What \<open>trigger\<close> does when a
  handler throws \<^verbatim>\<open>null\<close> or \<^verbatim>\<open>undefined\<close> is not part of the statement.
\<close>

theorem trigger_isolates_failure:
  assumes own: "own_hook hookName = Some h"
    and k: "k < length (hooks s h)"
    and sane: "\<forall>i < length (hooks s h).
                 \<not> throws_nullish
                     (fst (invoke (callback (hooks s h ! i))
                             (payload_at (default_data d) (hooks s h) i)))"
    and throws: "fst (invoke (callback (hooks s h ! k))
                        (payload_at (default_data d) (hooks s h) k)) = Throws m"
  shows "\<exists>rs. fst (trigger s hookName d) = Inr rs
           \<and> length rs = length (hooks s h)
           \<and> rs ! k = \<lparr>plugin = name (hooks s h ! k), outcome = Error (JStr m)\<rparr>
           \<and> (\<forall>i < length (hooks s h).
                 plugin (rs ! i) = name (hooks s h ! i)
               \<and> entry_of (payload_at (default_data d) (hooks s h) i) (hooks s h ! i)
                   = Inr (rs ! i))
           \<and> (\<forall>cb.
                 snd (invoke cb (payload_at (default_data d) (hooks s h) k)) =
                   snd (invoke (callback (hooks s h ! k))
                          (payload_at (default_data d) (hooks s h) k))
               \<and> \<not> throws_nullish (fst (invoke cb (payload_at (default_data d) (hooks s h) k)))
               \<longrightarrow> (\<exists>rs'.
                     fst (trigger
                            (s\<lparr>hooks := (hooks s)(h := (hooks s h)[k := (hooks s h ! k)\<lparr>callback := cb\<rparr>])\<rparr>)
                            hookName d) = Inr rs'
                   \<and> length rs' = length rs
                   \<and> (\<forall>i < length (hooks s h). i \<noteq> k \<longrightarrow> rs' ! i = rs ! i)))"
proof -
  let ?subs = "hooks s h"
  let ?d = "default_data d"
  from entries_of_returns[OF sane] obtain rs where rs: "entries_of ?d ?subs = Inr rs" by blast
  have r: "fst (trigger s hookName d) = Inr rs"
    using trigger_own[OF own] rs by simp
  from entries_of_Inr_nth[OF rs] have
    len: "length rs = length ?subs"
    and nth: "\<forall>i < length ?subs. entry_of (payload_at ?d ?subs i) (?subs ! i) = Inr (rs ! i)"
    by simp_all
  have kth: "rs ! k = \<lparr>plugin = name (?subs ! k), outcome = Error (JStr m)\<rparr>"
    using nth k throws by (auto simp: entry_of_eq)
  have each: "\<forall>i < length ?subs.
                 plugin (rs ! i) = name (?subs ! i)
               \<and> entry_of (payload_at ?d ?subs i) (?subs ! i) = Inr (rs ! i)"
    using nth entry_of_plugin by blast
  have others: "\<exists>rs'.
         fst (trigger (s\<lparr>hooks := (hooks s)(h := ?subs[k := (?subs ! k)\<lparr>callback := cb\<rparr>])\<rparr>)
                hookName d) = Inr rs'
       \<and> length rs' = length rs
       \<and> (\<forall>i < length ?subs. i \<noteq> k \<longrightarrow> rs' ! i = rs ! i)"
    if same: "snd (invoke cb (payload_at ?d ?subs k)) =
              snd (invoke (callback (?subs ! k)) (payload_at ?d ?subs k))"
      and ok: "\<not> throws_nullish (fst (invoke cb (payload_at ?d ?subs k)))"
    for cb
  proof -
    let ?subs' = "?subs[k := (?subs ! k)\<lparr>callback := cb\<rparr>]"
    let ?s' = "s\<lparr>hooks := (hooks s)(h := ?subs')\<rparr>"
    have pay: "payload_at ?d ?subs' i = payload_at ?d ?subs i" if "i \<le> length ?subs" for i
      using payload_at_update[OF k same that] .
    have sane': "\<forall>i < length ?subs'.
        \<not> throws_nullish (fst (invoke (callback (?subs' ! i)) (payload_at ?d ?subs' i)))"
    proof (intro allI impI)
      fix i assume i: "i < length ?subs'"
      then have i': "i < length ?subs" by simp
      show "\<not> throws_nullish (fst (invoke (callback (?subs' ! i)) (payload_at ?d ?subs' i)))"
      proof (cases "i = k")
        case True
        with k ok pay[of k] show ?thesis by simp
      next
        case False
        with sane i' pay[of i] show ?thesis by simp
      qed
    qed
    from entries_of_returns[OF sane'] obtain rs' where rs': "entries_of ?d ?subs' = Inr rs'"
      by blast
    from entries_of_Inr_nth[OF rs'] have
      len': "length rs' = length ?subs'"
      and nth': "\<forall>i < length ?subs'.
          entry_of (payload_at ?d ?subs' i) (?subs' ! i) = Inr (rs' ! i)"
      by simp_all
    have same_entries: "\<forall>i < length ?subs. i \<noteq> k \<longrightarrow> rs' ! i = rs ! i"
    proof (intro allI impI)
      fix i assume i: "i < length ?subs" and ik: "i \<noteq> k"
      from nth' i have "entry_of (payload_at ?d ?subs' i) (?subs' ! i) = Inr (rs' ! i)" by simp
      with ik pay[of i] i have "entry_of (payload_at ?d ?subs i) (?subs ! i) = Inr (rs' ! i)"
        by simp
      with nth i show "rs' ! i = rs ! i" by simp
    qed
    have "fst (trigger ?s' hookName d) = Inr rs'"
      using trigger_own[OF own, of ?s' d] rs' by simp
    with len len' same_entries show ?thesis by simp
  qed
  show ?thesis
    by (rule exI[of _ rs]) (use r len kth each others in blast)
qed

theorem trigger_isolates_failure_witness:
  "own_hook ''onBooking'' = Some OnBooking
   \<and> 1 < length (hooks three_plugins OnBooking)
   \<and> \<not> throws_nullish (fst (invoke (callback (hooks three_plugins OnBooking ! 0))
                                (payload_at (default_data JNull) (hooks three_plugins OnBooking) 0)))
   \<and> \<not> throws_nullish (fst (invoke (callback (hooks three_plugins OnBooking ! 2))
                                (payload_at (default_data JNull) (hooks three_plugins OnBooking) 2)))
   \<and> fst (invoke (callback (hooks three_plugins OnBooking ! 1))
             (payload_at (default_data JNull) (hooks three_plugins OnBooking) 1)) = Throws ''boom''
   \<and> (\<exists>rs. fst (trigger three_plugins ''onBooking'' JNull) = Inr rs
         \<and> length rs = 3
         \<and> rs ! 1 = \<lparr>plugin = ''mail'', outcome = Error (JStr ''boom'')\<rparr>
         \<and> rs ! 0 = \<lparr>plugin = ''crm'', outcome = Result (JObj [(''success'', JBool True)])\<rparr>
         \<and> rs ! 2 = \<lparr>plugin = ''fleet'', outcome = Result (JPromise (Rejected ''timeout''))\<rparr>)"
proof -
  have k: "1 < length (hooks three_plugins OnBooking)"
    by (simp add: hooks_three_plugins)
  have each: "fst (invoke (callback (hooks three_plugins OnBooking ! 0))
                (payload_at (default_data JNull) (hooks three_plugins OnBooking) 0)) =
              Returns (JObj [(''success'', JBool True)])"
    "fst (invoke (callback (hooks three_plugins OnBooking ! 1))
                (payload_at (default_data JNull) (hooks three_plugins OnBooking) 1)) = Throws ''boom''"
    "fst (invoke (callback (hooks three_plugins OnBooking ! 2))
                (payload_at (default_data JNull) (hooks three_plugins OnBooking) 2)) =
              Returns (JPromise (Rejected ''timeout''))"
    by (simp_all add: hooks_three_plugins invoke_def payload_at_def payload_through_def
        numeral_2_eq_2)
  have sane: "\<forall>i < length (hooks three_plugins OnBooking).
                 \<not> throws_nullish
                     (fst (invoke (callback (hooks three_plugins OnBooking ! i))
                             (payload_at (default_data JNull) (hooks three_plugins OnBooking) i)))"
  proof (intro allI impI)
    fix i assume "i < length (hooks three_plugins OnBooking)"
    then have "i = 0 \<or> i = 1 \<or> i = 2" by (auto simp: hooks_three_plugins)
    with each show "\<not> throws_nullish
                     (fst (invoke (callback (hooks three_plugins OnBooking ! i))
                             (payload_at (default_data JNull) (hooks three_plugins OnBooking) i)))"
      by (auto simp: throws_nullish_def)
  qed
  from trigger_isolates_failure[OF own_hook_onBooking k sane each(2)] k each
  show ?thesis
    by (simp add: own_hook_onBooking trigger_three_plugins throws_nullish_def)
qed

text \<open>
  C2, at a name outside the enumeration that \<^verbatim>\<open>Object.prototype\<close> defines: the test
  \<^verbatim>\<open>!this.hooks[hookName]\<close> does not fire, and the loop over the inherited member throws a
  \<^verbatim>\<open>TypeError\<close> to the caller instead of returning the empty sequence.
\<close>

theorem trigger_inherited_name_throws:
  "own_hook ''toString'' = None
   \<and> trigger s ''toString'' d = (Inl (TypeError ''this.hooks[hookName] is not iterable''), [])"
  by (simp add: trigger_def hooks_get_def own_hook_def hook_names_def object_prototype_keys_def)

text \<open>
  For every other name outside the enumeration \<open>trigger\<close> does what C2 says: it logs the
  error and returns the empty sequence.
\<close>

lemma trigger_unknown_hook:
  "own_hook hookName = None \<Longrightarrow> hookName \<notin> set object_prototype_keys \<Longrightarrow>
   trigger s hookName d = (Inr [], [ConsoleError (''Hook '' @ hookName @ '' does not exist.'')])"
  by (simp add: trigger_def hooks_get_def)

text \<open>
  C3 fails: the third handler of \<open>three_plugins\<close> returns a promise that rejects, and its
  entry is not the settled outcome the claim asks for.
\<close>

theorem trigger_rejection_counterexample:
  "fst (trigger three_plugins ''onBooking'' JNull)
     \<noteq> Inr (map (settled_entry (default_data JNull)) (hooks three_plugins OnBooking))"
  by (simp add: trigger_three_plugins hooks_three_plugins settled_entry_def settled_outcome_def
      invoke_def)

lemma entry_of_Returns:
  "entry_of d hook = Inr r \<Longrightarrow> fst (invoke (callback hook) d) = Returns v \<Longrightarrow>
   outcome r = Result v"
  by (auto simp: entry_of_eq)

lemma entry_of_Throws:
  "entry_of d hook = Inr r \<Longrightarrow> fst (invoke (callback hook) d) = Throws m \<Longrightarrow>
   outcome r = Error (JStr m)"
  by (auto simp: entry_of_eq)

text \<open>
  C3, amended. On a hook of the enumeration, every sequence \<open>trigger\<close> returns has one
  entry per subscription, in subscription order, built from what the synchronous call of
  the handler produced: the returned value as the entry's result, or the message of an
  \<^verbatim>\<open>Error\<close> thrown during the call as the entry's error. A handler that returns a promise
  is not awaited: its entry holds the promise itself as a result, however the promise
  settles. \<open>trigger\<close> returns such a sequence whenever no handler throws \<^verbatim>\<open>null\<close> or
  \<^verbatim>\<open>undefined\<close>; what it does otherwise is not part of the statement.
\<close>

theorem trigger_records_promise_unawaited:
  assumes own: "own_hook hookName = Some h"
  shows "(\<forall>rs. fst (trigger s hookName d) = Inr rs \<longrightarrow>
            map plugin rs = map name (hooks s h)
          \<and> (\<forall>i < length (hooks s h). \<forall>v.
                fst (invoke (callback (hooks s h ! i))
                       (payload_at (default_data d) (hooks s h) i)) = Returns v
                \<longrightarrow> outcome (rs ! i) = Result v)
          \<and> (\<forall>i < length (hooks s h). \<forall>p.
                fst (invoke (callback (hooks s h ! i))
                       (payload_at (default_data d) (hooks s h) i)) = Returns (JPromise p)
                \<longrightarrow> outcome (rs ! i) = Result (JPromise p))
          \<and> (\<forall>i < length (hooks s h). \<forall>m.
                fst (invoke (callback (hooks s h ! i))
                       (payload_at (default_data d) (hooks s h) i)) = Throws m
                \<longrightarrow> outcome (rs ! i) = Error (JStr m)))
       \<and> ((\<forall>i < length (hooks s h).
              \<not> throws_nullish
                  (fst (invoke (callback (hooks s h ! i))
                          (payload_at (default_data d) (hooks s h) i))))
            \<longrightarrow> (\<exists>rs. fst (trigger s hookName d) = Inr rs))"
proof (intro conjI allI impI)
  fix rs assume "fst (trigger s hookName d) = Inr rs"
  then have rs: "entries_of (default_data d) (hooks s h) = Inr rs"
    using trigger_own[OF own, of s d] by simp
  from entries_of_plugins[OF rs] show "map plugin rs = map name (hooks s h)" .
  from entries_of_Inr_nth[OF rs] have
    nth: "\<forall>i < length (hooks s h).
            entry_of (payload_at (default_data d) (hooks s h) i) (hooks s h ! i) = Inr (rs ! i)"
    by simp
  { fix i v
    assume "i < length (hooks s h)"
      and "fst (invoke (callback (hooks s h ! i))
                  (payload_at (default_data d) (hooks s h) i)) = Returns v"
    with nth show "outcome (rs ! i) = Result v"
      using entry_of_Returns by blast }
  { fix i p
    assume "i < length (hooks s h)"
      and "fst (invoke (callback (hooks s h ! i))
                  (payload_at (default_data d) (hooks s h) i)) = Returns (JPromise p)"
    with nth show "outcome (rs ! i) = Result (JPromise p)"
      using entry_of_Returns by blast }
  { fix i m
    assume "i < length (hooks s h)"
      and "fst (invoke (callback (hooks s h ! i))
                  (payload_at (default_data d) (hooks s h) i)) = Throws m"
    with nth show "outcome (rs ! i) = Error (JStr m)"
      using entry_of_Throws by blast }
next
  assume "\<forall>i < length (hooks s h).
              \<not> throws_nullish
                  (fst (invoke (callback (hooks s h ! i))
                          (payload_at (default_data d) (hooks s h) i)))"
  from entries_of_returns[OF this] show "\<exists>rs. fst (trigger s hookName d) = Inr rs"
    using trigger_own[OF own, of s d] by simp
qed

theorem trigger_records_promise_unawaited_witness:
  "own_hook ''onBooking'' = Some OnBooking
   \<and> fst (trigger three_plugins ''onBooking'' JNull) =
       Inr [\<lparr>plugin = ''crm'', outcome = Result (JObj [(''success'', JBool True)])\<rparr>,
            \<lparr>plugin = ''mail'', outcome = Error (JStr ''boom'')\<rparr>,
            \<lparr>plugin = ''fleet'', outcome = Result (JPromise (Rejected ''timeout''))\<rparr>]
   \<and> fst (invoke (callback (hooks three_plugins OnBooking ! 2))
             (payload_at (default_data JNull) (hooks three_plugins OnBooking) 2)) =
       Returns (JPromise (Rejected ''timeout''))"
proof -
  have p: "fst (invoke (callback (hooks three_plugins OnBooking ! 2))
             (payload_at (default_data JNull) (hooks three_plugins OnBooking) 2)) =
       Returns (JPromise (Rejected ''timeout''))"
    by (simp add: hooks_three_plugins invoke_def payload_at_def payload_through_def
        numeral_2_eq_2)
  from trigger_records_promise_unawaited[OF own_hook_onBooking, of three_plugins JNull]
    trigger_three_plugins p
  show ?thesis by (simp add: own_hook_onBooking)
qed

section \<open>Plugin lifecycle\<close>






lemma trigger_Inr:
  assumes "fst (trigger s hookName d) = Inr rs"
  shows "rs = [] \<or> (\<exists>h. own_hook hookName = Some h \<and> map plugin rs = map name (hooks s h))"
proof (cases "own_hook hookName")
  case None
  with assms show ?thesis
    by (auto simp: trigger_def hooks_get_def split: if_splits)
next
  case (Some h)
  with assms trigger_own[OF Some, of s d] entries_of_plugins show ?thesis by auto
qed

lemma deactivate_True:
  assumes "deactivate s n = (Inr True, s', e)"
  shows "hooks s' = (\<lambda>h. filter (\<lambda>hook. name hook \<noteq> n) (hooks s h))
         \<and> activePlugins s' = filter (\<lambda>pluginName. pluginName \<noteq> n) (activePlugins s)
         \<and> (\<exists>p. plugins s n = Some p \<and> active p \<and> plugins s' = (plugins s)(n \<mapsto> p\<lparr>active := False\<rparr>))"
  using assms
  by (auto simp: deactivate_def Let_def split: option.splits outcome.splits if_splits)

text \<open>
  C4. When \<open>deactivate\<close> of P returns true (which it does only for an active plugin), no
  subscription named P is left in the list of any hook, and whatever sequence a following
  \<open>trigger\<close> returns, on any hook name and payload, has no entry for P.
\<close>

theorem deactivate_removes_subscriptions:
  assumes "deactivate s P = (Inr True, s', e)"
  shows "(\<forall>h. \<forall>hook \<in> set (hooks s' h). name hook \<noteq> P)
       \<and> (\<forall>hookName d rs. fst (trigger s' hookName d) = Inr rs
            \<longrightarrow> (\<forall>r \<in> set rs. plugin r \<noteq> P))"
proof -
  from deactivate_True[OF assms]
  have hk: "hooks s' = (\<lambda>h. filter (\<lambda>hook. name hook \<noteq> P) (hooks s h))" by simp
  then have subs: "\<forall>h. \<forall>hook \<in> set (hooks s' h). name hook \<noteq> P" by simp
  have "\<forall>r \<in> set rs. plugin r \<noteq> P" if "fst (trigger s' hookName d) = Inr rs" for hookName d rs
  proof -
    from trigger_Inr[OF that] show ?thesis
    proof
      assume "rs = []" then show ?thesis by simp
    next
      assume "\<exists>h. own_hook hookName = Some h \<and> map plugin rs = map name (hooks s' h)"
      then obtain h where m: "map plugin rs = map name (hooks s' h)" by blast
      show ?thesis
      proof
        fix r assume "r \<in> set rs"
        then have "plugin r \<in> set (map plugin rs)" by simp
        with m have "plugin r \<in> name ` set (hooks s' h)" by simp
        then obtain hook where "hook \<in> set (hooks s' h)" "plugin r = name hook" by auto
        with subs show "plugin r \<noteq> P" by metis
      qed
    qed
  qed
  with subs show ?thesis by blast
qed

theorem deactivate_removes_subscriptions_witness:
  "fst (deactivate three_plugins ''mail'') = Inr True
   \<and> map name (hooks (fst (snd (deactivate three_plugins ''mail''))) OnBooking) = [''crm'', ''fleet'']
   \<and> fst (trigger (fst (snd (deactivate three_plugins ''mail''))) ''onBooking'' JNull) =
       Inr [\<lparr>plugin = ''crm'', outcome = Result (JObj [(''success'', JBool True)])\<rparr>,
            \<lparr>plugin = ''fleet'', outcome = Result (JPromise (Rejected ''timeout''))\<rparr>]"
proof -
  have plug: "plugins three_plugins ''mail'' = Some \<lparr>inst = throwing_plugin, config = [], active = True\<rparr>"
    by (simp add: three_plugins_def build_defs ok_plugin_def throwing_plugin_def async_plugin_def)
  have r: "fst (deactivate three_plugins ''mail'') = Inr True"
    by (simp add: deactivate_def plug throwing_plugin_def Let_def)
  then have d: "deactivate three_plugins ''mail'' =
             (Inr True, fst (snd (deactivate three_plugins ''mail'')),
              snd (snd (deactivate three_plugins ''mail'')))"
    by (metis prod.collapse)
  have h: "hooks (fst (snd (deactivate three_plugins ''mail''))) OnBooking =
     [\<lparr>name = ''crm'', callback = Callable (\<lambda>d. (Returns (JObj [(''success'', JBool True)]), d))\<rparr>,
      \<lparr>name = ''fleet'', callback = Callable (\<lambda>d. (Returns (JPromise (Rejected ''timeout'')), d))\<rparr>]"
    by (simp add: deactivate_def plug throwing_plugin_def Let_def hooks_three_plugins)
  show ?thesis
    using deactivate_removes_subscriptions[OF d] r h
    by (simp add: trigger_own[OF own_hook_onBooking] run_defs)
qed




lemma plugins_cleanup_fails_manager:
  "plugins cleanup_fails_manager ''chat'' =
     Some \<lparr>inst = cleanup_fails_plugin, config = [], active = True\<rparr>"
  by (simp add: cleanup_fails_manager_def install_def register_def activate_def new_manager_def
      hook_entries_def cleanup_fails_plugin_def own_hook_def hook_names_def)

lemma hooks_cleanup_fails_manager:
  "hooks cleanup_fails_manager OnLead = [\<lparr>name = ''chat'', callback = Callable (\<lambda>d. (Returns JNull, d))\<rparr>]"
  by (simp add: cleanup_fails_manager_def install_def register_def activate_def new_manager_def
      hook_entries_def cleanup_fails_plugin_def own_hook_def hook_names_def)

text \<open>
  C6 fails in its second half: \<open>deactivate\<close> of an active plugin whose \<^verbatim>\<open>cleanup\<close> throws
  lets the error out.
\<close>

theorem cleanup_failure_counterexample:
  "fst (deactivate cleanup_fails_manager ''chat'') = Inl (JsError ''socket closed'')"
  by (simp add: deactivate_def plugins_cleanup_fails_manager cleanup_fails_plugin_def Let_def)

text \<open>
  C6, amended. Neither callback is guarded. When \<^verbatim>\<open>init\<close> throws, \<open>activate\<close> throws the
  same error and the manager is unchanged: no subscription added, the plugin not marked
  active. When \<^verbatim>\<open>cleanup\<close> of an active plugin throws, \<open>deactivate\<close> throws the same error
  after the plugin's subscriptions have been removed; the plugin stays marked active and
  stays in the active list.
\<close>

theorem init_and_cleanup_unguarded:
  "(plugins s n = Some p \<and> init (inst p) = Some f \<and> f (config p) = Throws m
      \<longrightarrow> activate s n = (Inl (JsError m), s, [CallInit n (config p)]))
   \<and> (plugins s n = Some p \<and> active p \<and> cleanup (inst p) = Some (Throws m)
      \<longrightarrow> deactivate s n =
            (Inl (JsError m),
             s\<lparr>hooks := (\<lambda>h. filter (\<lambda>hook. name hook \<noteq> n) (hooks s h))\<rparr>,
             [CallCleanup n]))"
  by (simp add: activate_def deactivate_def Let_def)

theorem init_and_cleanup_unguarded_witness:
  "plugins init_fails_manager ''sms'' = Some \<lparr>inst = init_fails_plugin, config = [], active = False\<rparr>
   \<and> activate init_fails_manager ''sms'' =
       (Inl (JsError ''missing api key''), init_fails_manager, [CallInit ''sms'' []])
   \<and> hooks init_fails_manager OnLead = []
   \<and> getActivePlugins init_fails_manager = []
   \<and> plugins cleanup_fails_manager ''chat'' = Some \<lparr>inst = cleanup_fails_plugin, config = [], active = True\<rparr>
   \<and> fst (deactivate cleanup_fails_manager ''chat'') = Inl (JsError ''socket closed'')
   \<and> hooks (fst (snd (deactivate cleanup_fails_manager ''chat''))) OnLead = []
   \<and> getActivePlugins (fst (snd (deactivate cleanup_fails_manager ''chat''))) = [''chat'']"
proof -
  have p1: "plugins init_fails_manager ''sms'' =
              Some \<lparr>inst = init_fails_plugin, config = [], active = False\<rparr>"
    and h1: "hooks init_fails_manager OnLead = []"
    and a1: "getActivePlugins init_fails_manager = []"
    by (simp_all add: init_fails_manager_def register_def new_manager_def getActivePlugins_def)
  have i1: "init (inst \<lparr>inst = init_fails_plugin, config = [], active = False\<rparr>) =
              Some (\<lambda>cfg. Throws ''missing api key'')"
    by (simp add: init_fails_plugin_def)
  have c2: "cleanup (inst \<lparr>inst = cleanup_fails_plugin, config = [], active = True\<rparr>) =
              Some (Throws ''socket closed'')"
    by (simp add: cleanup_fails_plugin_def)
  have a2: "activePlugins cleanup_fails_manager = [''chat'']"
    by (simp add: cleanup_fails_manager_def install_def register_def activate_def new_manager_def
      hook_entries_def cleanup_fails_plugin_def own_hook_def hook_names_def)
  from init_and_cleanup_unguarded[of init_fails_manager "''sms''"
      "\<lparr>inst = init_fails_plugin, config = [], active = False\<rparr>"
      "\<lambda>cfg. Throws ''missing api key''" "''missing api key''"]
  have t1: "activate init_fails_manager ''sms'' =
       (Inl (JsError ''missing api key''), init_fails_manager, [CallInit ''sms'' []])"
    using p1 i1 by simp
  from init_and_cleanup_unguarded[of cleanup_fails_manager "''chat''"
      "\<lparr>inst = cleanup_fails_plugin, config = [], active = True\<rparr>" _ "''socket closed''"]
  have t2: "deactivate cleanup_fails_manager ''chat'' =
            (Inl (JsError ''socket closed''),
             cleanup_fails_manager\<lparr>hooks := (\<lambda>h. filter (\<lambda>hook. name hook \<noteq> ''chat'') (hooks cleanup_fails_manager h))\<rparr>,
             [CallCleanup ''chat''])"
    using plugins_cleanup_fails_manager c2 by simp
  show ?thesis
    using p1 h1 a1 t1 t2 plugins_cleanup_fails_manager a2
    by (simp add: hooks_cleanup_fails_manager getActivePlugins_def)
qed

lemma map_of_fold_update:
  "distinct (map fst xs) \<Longrightarrow>
   map_of (fold (\<lambda>(k, v). AList.update k v) xs a) = map_of a ++ map_of xs"
proof (induction xs arbitrary: a)
  case Nil
  then show ?case by simp
next
  case (Cons x xs)
  obtain k v where x: "x = (k, v)" by (cases x)
  from Cons.prems x have notin: "k \<notin> fst ` set xs" and d: "distinct (map fst xs)"
    by auto
  from notin have none: "map_of xs k = None"
    by (simp add: map_of_eq_None_iff)
  have "map_of (fold (\<lambda>(k, v). AList.update k v) (x # xs) a) =
          map_of (AList.update k v a) ++ map_of xs"
    using Cons.IH[OF d] x by simp
  also have "\<dots> = (map_of a)(k \<mapsto> v) ++ map_of xs"
    by (simp add: update_conv')
  also have "\<dots> = map_of a ++ map_of (x # xs)"
    using none x by (auto simp: map_add_def fun_eq_iff split: option.splits)
  finally show ?case .
qed

lemma map_of_spread: "map_of (spread a b) = map_of a ++ map_of b"
  by (simp add: spread_def map_of_fold_update map_of_clearjunk)

text \<open>
  C9. For a registered plugin, \<open>updatePluginConfig\<close> stores a configuration in which every
  key of the partial configuration has the new value and every other key keeps the stored
  one. When the plugin is active and has an \<^verbatim>\<open>updateConfig\<close> function, that function is
  called once, with the merged configuration; otherwise nothing is called.
\<close>

theorem updatePluginConfig_merges:
  assumes "plugins s n = Some p"
  shows "\<exists>r s' effs merged.
           updatePluginConfig s n cfg = (r, s', effs)
         \<and> fst (getPluginConfig s' n) = Some merged
         \<and> map_of merged = map_of (config p) ++ map_of cfg
         \<and> (\<forall>f. active p \<and> updateConfig (inst p) = Some f
              \<longrightarrow> effs = [CallUpdateConfig n merged]
                \<and> r = (case f merged of
                         Throws m \<Rightarrow> Inl (JsError m)
                       | ThrowsValue v \<Rightarrow> Inl (Thrown v)
                       | Returns v \<Rightarrow> Inr True))
         \<and> (\<not> active p \<or> updateConfig (inst p) = None \<longrightarrow> effs = [] \<and> r = Inr True)"
proof -
  let ?merged = "spread (config p) cfg"
  let ?s1 = "s\<lparr>plugins := (plugins s)(n \<mapsto> p\<lparr>config := ?merged\<rparr>)\<rparr>"
  have "fst (snd (updatePluginConfig s n cfg)) = ?s1"
    using assms
    by (simp add: updatePluginConfig_def Let_def split: option.splits outcome.splits)
  then obtain r effs where u: "updatePluginConfig s n cfg = (r, ?s1, effs)"
    by (metis prod.collapse)
  have stored: "fst (getPluginConfig ?s1 n) = Some ?merged"
    by (simp add: getPluginConfig_def)
  have merged: "map_of ?merged = map_of (config p) ++ map_of cfg"
    by (rule map_of_spread)
  have called: "\<forall>f. active p \<and> updateConfig (inst p) = Some f
              \<longrightarrow> effs = [CallUpdateConfig n ?merged]
                \<and> r = (case f ?merged of
                         Throws m \<Rightarrow> Inl (JsError m)
                       | ThrowsValue v \<Rightarrow> Inl (Thrown v)
                       | Returns v \<Rightarrow> Inr True)"
    using u assms by (auto simp: updatePluginConfig_def Let_def split: outcome.splits)
  have quiet: "\<not> active p \<or> updateConfig (inst p) = None \<longrightarrow> effs = [] \<and> r = Inr True"
    using u assms
    by (auto simp: updatePluginConfig_def Let_def split: option.splits outcome.splits)
  show ?thesis
    by (rule exI[of _ r], rule exI[of _ ?s1], rule exI[of _ effs], rule exI[of _ ?merged])
       (intro conjI u stored merged called quiet)
qed

theorem updatePluginConfig_merges_witness:
  "plugins keyed_manager ''uchat'' =
     Some \<lparr>inst = ok_plugin, config = [(''apiKey'', JStr ''y''), (''flowId'', JStr ''z'')], active = True\<rparr>
   \<and> updatePluginConfig keyed_manager ''uchat'' [(''apiKey'', JStr ''x'')] =
       (Inr True,
        keyed_manager\<lparr>plugins := (plugins keyed_manager)(''uchat'' \<mapsto>
           \<lparr>inst = ok_plugin, config = [(''apiKey'', JStr ''x''), (''flowId'', JStr ''z'')], active = True\<rparr>)\<rparr>,
        [CallUpdateConfig ''uchat'' [(''apiKey'', JStr ''x''), (''flowId'', JStr ''z'')]])"
proof -
  have p: "plugins keyed_manager ''uchat'' =
     Some \<lparr>inst = ok_plugin, config = [(''apiKey'', JStr ''y''), (''flowId'', JStr ''z'')], active = True\<rparr>"
    by (simp add: keyed_manager_def install_def register_def activate_def new_manager_def
      hook_entries_def ok_plugin_def own_hook_def hook_names_def)
  have sp: "spread [(''apiKey'', JStr ''y''), (''flowId'', JStr ''z'')] [(''apiKey'', JStr ''x'')] =
      [(''apiKey'', JStr ''x''), (''flowId'', JStr ''z'')]"
    by (simp add: spread_def AList.delete_eq)
  show ?thesis
    using updatePluginConfig_merges[OF p, of "[(''apiKey'', JStr ''x'')]"] p
    by (simp add: updatePluginConfig_def Let_def sp ok_plugin_def)
qed





section \<open>Entry points\<close>

lemma processLead_failed:
  "processLead e s kvs = (Inl x, evs) \<Longrightarrow> \<exists>rec. evs = [InsertCall ''leads'' rec]"
  by (auto simp: processLead_def triggerIntegrations_def Let_def
      split: insert_outcome.splits if_splits sum.splits)

lemma processLead_saved:
  "processLead e s kvs = (Inr v, evs) \<Longrightarrow>
   \<exists>rec rows err saved.
      evs = [InsertCall ''leads'' rec, Triggered ''onLead'' saved (fst (trigger s ''onLead'' saved))]
    \<and> store_insert e ''leads'' rec = InsertResolves rows err
    \<and> \<not> truthy err \<and> index0 rows = Inr saved"
  by (auto simp: processLead_def triggerIntegrations_def Let_def
      split: insert_outcome.splits if_splits sum.splits)

lemma lead_handler_cases:
  assumes "lead_handler e s req = (resp, evs)"
  shows "(evs = [] \<and> status resp \<noteq> 200)
       \<or> (\<exists>rec. evs = [InsertCall ''leads'' rec] \<and> status resp = 500)
       \<or> (\<exists>rec rows err saved.
              evs = [InsertCall ''leads'' rec, Triggered ''onLead'' saved (fst (trigger s ''onLead'' saved))]
            \<and> store_insert e ''leads'' rec = InsertResolves rows err
            \<and> \<not> truthy err \<and> index0 rows = Inr saved \<and> status resp = 200)"
proof (cases "http_method req = ''POST''")
  case False
  with assms show ?thesis by (auto simp: lead_handler_def error_response_def)
next
  case post: True
  show ?thesis
  proof (cases "validateLeadData (body req)")
    case (Inl x)
    with assms post show ?thesis by (auto simp: lead_handler_def error_response_def)
  next
    case (Inr b)
    show ?thesis
    proof (cases b)
      case False
      with assms post Inr show ?thesis by (auto simp: lead_handler_def error_response_def)
    next
      case valid: True
      show ?thesis
      proof (cases "\<exists>kvs. body req = JObj kvs")
        case False
        with assms post Inr valid show ?thesis
          by (auto simp: lead_handler_def error_response_def split: jsval.splits)
      next
        case True
        then obtain kvs where b: "body req = JObj kvs" by blast
        obtain r evs' where pr: "processLead e s kvs = (r, evs')" by (cases "processLead e s kvs")
        show ?thesis
        proof (cases r)
          case (Inl x)
          with assms post Inr valid b pr have "evs' = evs" "status resp = 500"
            by (auto simp: lead_handler_def error_response_def)
          with processLead_failed[of e s kvs x evs] pr Inl show ?thesis by blast
        next
          case v: (Inr v)
          with assms post Inr valid b pr have "evs' = evs" "status resp = 200"
            by (auto simp: lead_handler_def)
          with processLead_saved[of e s kvs v evs] pr v show ?thesis by blast
        qed
      qed
    qed
  qed
qed

lemma processBooking_failed:
  "processBooking e s kvs = (Inl x, evs) \<Longrightarrow> \<exists>rec. evs = [InsertCall ''bookings'' rec]"
  by (auto simp: processBooking_def triggerIntegrations_def Let_def
      split: insert_outcome.splits if_splits sum.splits)

lemma processBooking_saved:
  "processBooking e s kvs = (Inr v, evs) \<Longrightarrow>
   \<exists>rec rows err saved.
      evs = [InsertCall ''bookings'' rec, Triggered ''onBooking'' saved (fst (trigger s ''onBooking'' saved))]
    \<and> store_insert e ''bookings'' rec = InsertResolves rows err
    \<and> \<not> truthy err \<and> index0 rows = Inr saved"
  by (auto simp: processBooking_def triggerIntegrations_def Let_def
      split: insert_outcome.splits if_splits sum.splits)

lemma booking_handler_cases:
  assumes "booking_handler e s req = (resp, evs)"
  shows "(evs = [] \<and> status resp \<noteq> 200)
       \<or> (\<exists>rec. evs = [InsertCall ''bookings'' rec] \<and> status resp = 500)
       \<or> (\<exists>rec rows err saved.
              evs = [InsertCall ''bookings'' rec, Triggered ''onBooking'' saved (fst (trigger s ''onBooking'' saved))]
            \<and> store_insert e ''bookings'' rec = InsertResolves rows err
            \<and> \<not> truthy err \<and> index0 rows = Inr saved \<and> status resp = 200)"
proof (cases "http_method req = ''POST''")
  case False
  with assms show ?thesis by (auto simp: booking_handler_def error_response_def)
next
  case post: True
  show ?thesis
  proof (cases "validateBookingData (body req)")
    case (Inl x)
    with assms post show ?thesis by (auto simp: booking_handler_def error_response_def)
  next
    case (Inr b)
    show ?thesis
    proof (cases b)
      case False
      with assms post Inr show ?thesis by (auto simp: booking_handler_def error_response_def)
    next
      case valid: True
      show ?thesis
      proof (cases "\<exists>kvs. body req = JObj kvs")
        case False
        with assms post Inr valid show ?thesis
          by (auto simp: booking_handler_def error_response_def split: jsval.splits)
      next
        case True
        then obtain kvs where b: "body req = JObj kvs" by blast
        obtain r evs' where pr: "processBooking e s kvs = (r, evs')" by (cases "processBooking e s kvs")
        show ?thesis
        proof (cases r)
          case (Inl x)
          with assms post Inr valid b pr have "evs' = evs" "status resp = 500"
            by (auto simp: booking_handler_def error_response_def)
          with processBooking_failed[of e s kvs x evs] pr Inl show ?thesis by blast
        next
          case v: (Inr v)
          with assms post Inr valid b pr have "evs' = evs" "status resp = 200"
            by (auto simp: booking_handler_def)
          with processBooking_saved[of e s kvs v evs] pr v show ?thesis by blast
        qed
      qed
    qed
  qed
qed

lemma persisted_before_hooks_aux:
  assumes "(evs = [] \<and> status resp \<noteq> (200::nat))
       \<or> (\<exists>rec. evs = [InsertCall tbl rec] \<and> status resp = 500)
       \<or> (\<exists>rec rows err saved.
              evs = [InsertCall tbl rec, Triggered hk saved (fst (trigger s hk saved))]
            \<and> store_insert e tbl rec = InsertResolves rows err
            \<and> \<not> truthy err \<and> index0 rows = Inr saved \<and> status resp = 200)"
  shows "(\<forall>h d r. Triggered h d r \<in> set evs \<longrightarrow>
            (\<exists>tbl rec rows err.
                evs = [InsertCall tbl rec, Triggered h d r]
              \<and> store_insert e tbl rec = InsertResolves rows err
              \<and> \<not> truthy err \<and> index0 rows = Inr d \<and> status resp = 200))
       \<and> (\<forall>tbl rec. InsertCall tbl rec \<in> set evs
              \<and> ((\<exists>m. store_insert e tbl rec = InsertRejects m)
                 \<or> (\<exists>rows err. store_insert e tbl rec = InsertResolves rows err \<and> truthy err))
            \<longrightarrow> status resp = 500 \<and> evs = [InsertCall tbl rec])"
  using assms by auto

text \<open>
  C7. In a lead or booking request a hook is triggered only after the insert of the record
  has resolved without error, and it is triggered with the row the store returned: the
  request's events are then the insert followed by the one trigger, and the response is 200.
  When the insert the request sent is rejected or resolves with an error, the response is
  500 and the insert is the request's only event: nothing is triggered.
\<close>

theorem record_persisted_before_hooks:
  assumes "lead_handler e s req = (resp, evs) \<or> booking_handler e s req = (resp, evs)"
  shows "(\<forall>h d r. Triggered h d r \<in> set evs \<longrightarrow>
            (\<exists>tbl rec rows err.
                evs = [InsertCall tbl rec, Triggered h d r]
              \<and> store_insert e tbl rec = InsertResolves rows err
              \<and> \<not> truthy err \<and> index0 rows = Inr d \<and> status resp = 200))
       \<and> (\<forall>tbl rec. InsertCall tbl rec \<in> set evs
              \<and> ((\<exists>m. store_insert e tbl rec = InsertRejects m)
                 \<or> (\<exists>rows err. store_insert e tbl rec = InsertResolves rows err \<and> truthy err))
            \<longrightarrow> status resp = 500 \<and> evs = [InsertCall tbl rec])"
  using assms
proof
  assume "lead_handler e s req = (resp, evs)"
  from lead_handler_cases[OF this] show ?thesis by (rule persisted_before_hooks_aux)
next
  assume "booking_handler e s req = (resp, evs)"
  from booking_handler_cases[OF this] show ?thesis by (rule persisted_before_hooks_aux)
qed

lemma read_prop_update:
  "read_prop (AList.update k v kvs) k' = (if k' = k then v else read_prop kvs k')"
  by (simp add: read_prop_def update_conv')

lemma validateLeadData_JObj:
  "validateLeadData (JObj kvs) =
     Inr (truthy (read_prop kvs ''name'') \<and> truthy (read_prop kvs ''email''))"
  by (simp add: validateLeadData_def read_prop_def)

lemma trigger_chat_onLead:
  "fst (trigger cleanup_fails_manager ''onLead'' (JObj kvs)) =
     Inr [\<lparr>plugin = ''chat'', outcome = Result JNull\<rparr>]"
  by (simp add: trigger_own[OF own_hook_onLead] hooks_cleanup_fails_manager run_defs)

lemma payload_after_chat_onLead:
  "payload_after cleanup_fails_manager ''onLead'' (JObj kvs) = JObj kvs"
  by (simp add: payload_after_def hooks_get_def own_hook_onLead hooks_cleanup_fails_manager
      run_hook_def invoke_def)

lemma payload_after_new_manager: "payload_after new_manager hookName v = v"
  by (cases "own_hook hookName")
     (simp_all add: payload_after_def hooks_get_def new_manager_def)

lemma booking_down:
  "booking_handler env_down cleanup_fails_manager booking_request =
     (\<lparr>status = 500, json = JObj [(''error'', JStr ''Internal server error'')]\<rparr>,
      [InsertCall ''bookings''
         (JObj [(''vehicleId'', JStr ''v7''), (''pickupDate'', JStr ''2024-02-01''),
                (''returnDate'', JStr ''2024-02-03''), (''pickupLocation'', JStr ''Penang''),
                (''returnLocation'', JStr ''Penang''), (''first-name'', JStr ''Jane''),
                (''last-name'', JStr ''Doe''), (''email'', JStr ''jane@x.com''),
                (''phone'', JStr ''60123456789''), (''reference'', JStr ''AT-0000010042''),
                (''created_at'', JStr ''2024-01-01T00:00:00.000Z'')])])"
  by (simp add: booking_handler_def booking_request_def validateBookingData_def read_prop_def
      processBooking_def env_down_def env_ok_def failing_store_def error_response_def Let_def)

theorem record_persisted_before_hooks_witness:
  "lead_handler env_down cleanup_fails_manager jane_request =
     (\<lparr>status = 500, json = JObj [(''error'', JStr ''Internal server error'')]\<rparr>,
      [InsertCall ''leads''
         (JObj [(''name'', JStr ''Jane''), (''email'', JStr ''jane@x.com''),
                (''created_at'', JStr ''2024-01-01T00:00:00.000Z''),
                (''source'', JStr ''website'')])])
   \<and> truthy (JObj [(''message'', JStr ''connection refused'')])
   \<and> lead_handler env_ok cleanup_fails_manager jane_request =
     (\<lparr>status = 200,
        json = JObj [(''success'', JBool True),
                     (''lead'', JObj [(''id'', JNum 1), (''name'', JStr ''Jane''),
                                      (''email'', JStr ''jane@x.com''),
                                      (''created_at'', JStr ''2024-01-01T00:00:00.000Z''),
                                      (''source'', JStr ''website'')])]\<rparr>,
      [InsertCall ''leads''
         (JObj [(''name'', JStr ''Jane''), (''email'', JStr ''jane@x.com''),
                (''created_at'', JStr ''2024-01-01T00:00:00.000Z''),
                (''source'', JStr ''website'')]),
       Triggered ''onLead''
         (JObj [(''id'', JNum 1), (''name'', JStr ''Jane''), (''email'', JStr ''jane@x.com''),
                (''created_at'', JStr ''2024-01-01T00:00:00.000Z''),
                (''source'', JStr ''website'')])
         (Inr [\<lparr>plugin = ''chat'', outcome = Result JNull\<rparr>])])
   \<and> booking_handler env_down cleanup_fails_manager booking_request =
     (\<lparr>status = 500, json = JObj [(''error'', JStr ''Internal server error'')]\<rparr>,
      [InsertCall ''bookings''
         (JObj [(''vehicleId'', JStr ''v7''), (''pickupDate'', JStr ''2024-02-01''),
                (''returnDate'', JStr ''2024-02-03''), (''pickupLocation'', JStr ''Penang''),
                (''returnLocation'', JStr ''Penang''), (''first-name'', JStr ''Jane''),
                (''last-name'', JStr ''Doe''), (''email'', JStr ''jane@x.com''),
                (''phone'', JStr ''60123456789''), (''reference'', JStr ''AT-0000010042''),
                (''created_at'', JStr ''2024-01-01T00:00:00.000Z'')])])"
proof -
  have down: "lead_handler env_down cleanup_fails_manager jane_request =
     (\<lparr>status = 500, json = JObj [(''error'', JStr ''Internal server error'')]\<rparr>,
      [InsertCall ''leads''
         (JObj [(''name'', JStr ''Jane''), (''email'', JStr ''jane@x.com''),
                (''created_at'', JStr ''2024-01-01T00:00:00.000Z''),
                (''source'', JStr ''website'')])])"
    by (simp add: lead_handler_def jane_request_def validateLeadData_JObj read_prop_def
        processLead_def env_down_def env_ok_def failing_store_def error_response_def Let_def)
  have ok: "lead_handler env_ok cleanup_fails_manager jane_request =
     (\<lparr>status = 200,
        json = JObj [(''success'', JBool True),
                     (''lead'', JObj [(''id'', JNum 1), (''name'', JStr ''Jane''),
                                      (''email'', JStr ''jane@x.com''),
                                      (''created_at'', JStr ''2024-01-01T00:00:00.000Z''),
                                      (''source'', JStr ''website'')])]\<rparr>,
      [InsertCall ''leads''
         (JObj [(''name'', JStr ''Jane''), (''email'', JStr ''jane@x.com''),
                (''created_at'', JStr ''2024-01-01T00:00:00.000Z''),
                (''source'', JStr ''website'')]),
       Triggered ''onLead''
         (JObj [(''id'', JNum 1), (''name'', JStr ''Jane''), (''email'', JStr ''jane@x.com''),
                (''created_at'', JStr ''2024-01-01T00:00:00.000Z''),
                (''source'', JStr ''website'')])
         (Inr [\<lparr>plugin = ''chat'', outcome = Result JNull\<rparr>])])"
    by (simp add: lead_handler_def jane_request_def validateLeadData_JObj read_prop_def
        processLead_def env_ok_def accepting_store_def triggerIntegrations_def
        trigger_chat_onLead payload_after_chat_onLead Let_def)
  from record_persisted_before_hooks[OF disjI1[OF down]]
       record_persisted_before_hooks[OF disjI1[OF ok]]
       record_persisted_before_hooks[OF disjI2[OF booking_down]] down ok booking_down
  show ?thesis by simp
qed

text \<open>
  C8 fails on two inputs. A POST whose body is \<^verbatim>\<open>null\<close> has neither name nor email, and
  the answer is 500, not 400: the validation reads a property of \<^verbatim>\<open>null\<close> inside the
  handler's \<^verbatim>\<open>try\<close>. A POST with name and email while the store refuses the insert is
  answered 500, not 200.
\<close>

theorem lead_endpoint_counterexample:
  "lead_handler env_ok new_manager null_body_request =
     (\<lparr>status = 500, json = JObj [(''error'', JStr ''Internal server error'')]\<rparr>, [])
   \<and> status (fst (lead_handler env_down new_manager jane_request)) = 500"
  by (simp add: lead_handler_def null_body_request_def jane_request_def validateLeadData_def
      error_response_def processLead_def env_down_def env_ok_def failing_store_def Let_def
      read_prop_def)

text \<open>
  C8, amended. For a POST to the lead handler: when the body is an object with a truthy
  \<^verbatim>\<open>name\<close> and a truthy \<^verbatim>\<open>email\<close>, the handler sends to the store the body with
  \<^verbatim>\<open>created_at\<close> set to the current time, \<^verbatim>\<open>source\<close> set to \<^verbatim>\<open>'website'\<close> unless the
  body has a truthy one, and every other key unchanged, and when the store persists it and
  returns a row, the response is 200 with that row (as the handlers left it), after one
  \<^verbatim>\<open>onLead\<close> trigger on it. When the body is an object whose \<^verbatim>\<open>name\<close> or \<^verbatim>\<open>email\<close> is
  missing or not truthy, or is any other value than \<^verbatim>\<open>null\<close> and \<^verbatim>\<open>undefined\<close>, the
  response is 400. When the body is \<^verbatim>\<open>null\<close> or \<^verbatim>\<open>undefined\<close>, the response is 500. In
  the last two cases nothing is inserted or triggered.
\<close>

theorem lead_endpoint:
  assumes post: "http_method req = ''POST''"
  shows "(body req = JNull \<or> body req = JUndefined \<longrightarrow>
            lead_handler e s req = (error_response 500 ''Internal server error'', []))
       \<and> (\<forall>kvs. body req = JObj kvs
              \<and> truthy (read_prop kvs ''name'') \<and> truthy (read_prop kvs ''email'') \<longrightarrow>
            (\<exists>rec evs'.
                snd (lead_handler e s req) = InsertCall ''leads'' (JObj rec) # evs'
              \<and> read_prop rec ''created_at'' = JStr (now_iso e)
              \<and> read_prop rec ''source'' =
                  (if truthy (read_prop kvs ''source'') then read_prop kvs ''source''
                   else JStr ''website'')
              \<and> (\<forall>k. k \<noteq> ''created_at'' \<and> k \<noteq> ''source''
                    \<longrightarrow> read_prop rec k = read_prop kvs k)
              \<and> (\<forall>rows err saved.
                     store_insert e ''leads'' (JObj rec) = InsertResolves rows err
                   \<and> \<not> truthy err \<and> index0 rows = Inr saved
                   \<longrightarrow> lead_handler e s req =
                         (\<lparr>status = 200,
                            json = JObj [(''success'', JBool True),
                                         (''lead'', payload_after s ''onLead'' saved)]\<rparr>,
                          [InsertCall ''leads'' (JObj rec),
                           Triggered ''onLead'' saved (fst (trigger s ''onLead'' saved))]))))
       \<and> (\<forall>kvs. body req = JObj kvs
              \<and> (\<not> truthy (read_prop kvs ''name'') \<or> \<not> truthy (read_prop kvs ''email'')) \<longrightarrow>
            lead_handler e s req = (error_response 400 ''Invalid lead data'', []))
       \<and> ((\<forall>kvs. body req \<noteq> JObj kvs) \<and> body req \<noteq> JNull \<and> body req \<noteq> JUndefined \<longrightarrow>
            lead_handler e s req = (error_response 400 ''Invalid lead data'', []))"
proof (intro conjI allI impI)
  assume "body req = JNull \<or> body req = JUndefined"
  then show "lead_handler e s req = (error_response 500 ''Internal server error'', [])"
    using post by (auto simp: lead_handler_def validateLeadData_def)
next
  fix kvs
  assume "body req = JObj kvs
          \<and> (\<not> truthy (read_prop kvs ''name'') \<or> \<not> truthy (read_prop kvs ''email''))"
  then show "lead_handler e s req = (error_response 400 ''Invalid lead data'', [])"
    using post by (auto simp: lead_handler_def validateLeadData_JObj)
next
  assume "(\<forall>kvs. body req \<noteq> JObj kvs) \<and> body req \<noteq> JNull \<and> body req \<noteq> JUndefined"
  then show "lead_handler e s req = (error_response 400 ''Invalid lead data'', [])"
    using post by (cases "body req") (simp_all add: lead_handler_def validateLeadData_def)
next
  fix kvs
  assume a: "body req = JObj kvs
             \<and> truthy (read_prop kvs ''name'') \<and> truthy (read_prop kvs ''email'')"
  then have b: "body req = JObj kvs"
    and valid: "truthy (read_prop kvs ''name'') \<and> truthy (read_prop kvs ''email'')" by simp_all
  let ?l1 = "AList.update ''created_at'' (JStr (now_iso e)) kvs"
  let ?rec = "if \<not> truthy (read_prop ?l1 ''source'')
              then AList.update ''source'' (JStr ''website'') ?l1 else ?l1"
  have h: "lead_handler e s req =
             (case processLead e s kvs of
                (Inl x, evs) \<Rightarrow> (error_response 500 ''Internal server error'', evs)
              | (Inr result, evs) \<Rightarrow> (\<lparr>status = 200, json = result\<rparr>, evs))"
    using post b valid by (simp add: lead_handler_def validateLeadData_JObj)
  have first: "\<exists>evs'. snd (lead_handler e s req) = InsertCall ''leads'' (JObj ?rec) # evs'"
    unfolding h
    by (simp add: processLead_def triggerIntegrations_def Let_def
        split: insert_outcome.splits sum.splits)
  have created: "read_prop ?rec ''created_at'' = JStr (now_iso e)"
    by (simp add: read_prop_update)
  have source: "read_prop ?rec ''source'' =
                  (if truthy (read_prop kvs ''source'') then read_prop kvs ''source''
                   else JStr ''website'')"
    by (simp add: read_prop_update)
  have rest: "\<forall>k. k \<noteq> ''created_at'' \<and> k \<noteq> ''source'' \<longrightarrow> read_prop ?rec k = read_prop kvs k"
    by (simp add: read_prop_update)
  have saved: "\<forall>rows err saved.
                     store_insert e ''leads'' (JObj ?rec) = InsertResolves rows err
                   \<and> \<not> truthy err \<and> index0 rows = Inr saved
                   \<longrightarrow> lead_handler e s req =
                         (\<lparr>status = 200,
                            json = JObj [(''success'', JBool True),
                                         (''lead'', payload_after s ''onLead'' saved)]\<rparr>,
                          [InsertCall ''leads'' (JObj ?rec),
                           Triggered ''onLead'' saved (fst (trigger s ''onLead'' saved))])"
    unfolding h
    by (simp add: processLead_def triggerIntegrations_def Let_def)
  show "\<exists>rec evs'.
                snd (lead_handler e s req) = InsertCall ''leads'' (JObj rec) # evs'
              \<and> read_prop rec ''created_at'' = JStr (now_iso e)
              \<and> read_prop rec ''source'' =
                  (if truthy (read_prop kvs ''source'') then read_prop kvs ''source''
                   else JStr ''website'')
              \<and> (\<forall>k. k \<noteq> ''created_at'' \<and> k \<noteq> ''source''
                    \<longrightarrow> read_prop rec k = read_prop kvs k)
              \<and> (\<forall>rows err saved.
                     store_insert e ''leads'' (JObj rec) = InsertResolves rows err
                   \<and> \<not> truthy err \<and> index0 rows = Inr saved
                   \<longrightarrow> lead_handler e s req =
                         (\<lparr>status = 200,
                            json = JObj [(''success'', JBool True),
                                         (''lead'', payload_after s ''onLead'' saved)]\<rparr>,
                          [InsertCall ''leads'' (JObj rec),
                           Triggered ''onLead'' saved (fst (trigger s ''onLead'' saved))]))"
    using first created source rest saved by (intro exI[of _ ?rec]) blast
qed

lemma validated_body_is_object:
  "validateLeadData v = Inr True \<Longrightarrow> \<exists>kvs. v = JObj kvs"
  "validateBookingData v = Inr True \<Longrightarrow> \<exists>kvs. v = JObj kvs"
  by (cases v; simp add: validateLeadData_def validateBookingData_def)+

theorem lead_endpoint_witness:
  "http_method jane_request = ''POST''
   \<and> body jane_request = JObj [(''name'', JStr ''Jane''), (''email'', JStr ''jane@x.com'')]
   \<and> truthy (read_prop [(''name'', JStr ''Jane''), (''email'', JStr ''jane@x.com'')] ''name'')
   \<and> truthy (read_prop [(''name'', JStr ''Jane''), (''email'', JStr ''jane@x.com'')] ''email'')
   \<and> lead_handler env_ok new_manager jane_request =
     (\<lparr>status = 200,
        json = JObj [(''success'', JBool True),
                     (''lead'', JObj [(''id'', JNum 1), (''name'', JStr ''Jane''),
                                      (''email'', JStr ''jane@x.com''),
                                      (''created_at'', JStr ''2024-01-01T00:00:00.000Z''),
                                      (''source'', JStr ''website'')])]\<rparr>,
      [InsertCall ''leads''
         (JObj [(''name'', JStr ''Jane''), (''email'', JStr ''jane@x.com''),
                (''created_at'', JStr ''2024-01-01T00:00:00.000Z''),
                (''source'', JStr ''website'')]),
       Triggered ''onLead''
         (JObj [(''id'', JNum 1), (''name'', JStr ''Jane''), (''email'', JStr ''jane@x.com''),
                (''created_at'', JStr ''2024-01-01T00:00:00.000Z''),
                (''source'', JStr ''website'')])
         (Inr [])])
   \<and> http_method no_email_request = ''POST''
   \<and> body no_email_request = JObj [(''name'', JStr ''Jane'')]
   \<and> \<not> truthy (read_prop [(''name'', JStr ''Jane'')] ''email'')
   \<and> lead_handler env_ok new_manager no_email_request =
     (\<lparr>status = 400, json = JObj [(''error'', JStr ''Invalid lead data'')]\<rparr>, [])
   \<and> http_method null_body_request = ''POST''
   \<and> body null_body_request = JNull
   \<and> lead_handler env_ok new_manager null_body_request =
     (\<lparr>status = 500, json = JObj [(''error'', JStr ''Internal server error'')]\<rparr>, [])"
proof -
  have p1: "http_method jane_request = ''POST''"
    and b1: "body jane_request = JObj [(''name'', JStr ''Jane''), (''email'', JStr ''jane@x.com'')]"
    by (simp_all add: jane_request_def)
  have p2: "http_method no_email_request = ''POST''"
    and b2: "body no_email_request = JObj [(''name'', JStr ''Jane'')]"
    by (simp_all add: no_email_request_def)
  have p3: "http_method null_body_request = ''POST''"
    and b3: "body null_body_request = JNull"
    by (simp_all add: null_body_request_def)
  have now: "now_iso env_ok = ''2024-01-01T00:00:00.000Z''"
    by (simp add: env_ok_def)
  have t0: "fst (trigger new_manager ''onLead'' v) = Inr []" for v
    by (simp add: trigger_own[OF own_hook_onLead] new_manager_def entries_of_Nil)
  have st: "store_insert env_ok ''leads''
              (JObj [(''name'', JStr ''Jane''), (''email'', JStr ''jane@x.com''),
                     (''created_at'', JStr ''2024-01-01T00:00:00.000Z''),
                     (''source'', JStr ''website'')]) =
            InsertResolves
              (JArr [JObj [(''id'', JNum 1), (''name'', JStr ''Jane''),
                           (''email'', JStr ''jane@x.com''),
                           (''created_at'', JStr ''2024-01-01T00:00:00.000Z''),
                           (''source'', JStr ''website'')]]) JNull"
    by (simp add: env_ok_def accepting_store_def)
  have ok: "lead_handler env_ok new_manager jane_request =
     (\<lparr>status = 200,
        json = JObj [(''success'', JBool True),
                     (''lead'', JObj [(''id'', JNum 1), (''name'', JStr ''Jane''),
                                      (''email'', JStr ''jane@x.com''),
                                      (''created_at'', JStr ''2024-01-01T00:00:00.000Z''),
                                      (''source'', JStr ''website'')])]\<rparr>,
      [InsertCall ''leads''
         (JObj [(''name'', JStr ''Jane''), (''email'', JStr ''jane@x.com''),
                (''created_at'', JStr ''2024-01-01T00:00:00.000Z''),
                (''source'', JStr ''website'')]),
       Triggered ''onLead''
         (JObj [(''id'', JNum 1), (''name'', JStr ''Jane''), (''email'', JStr ''jane@x.com''),
                (''created_at'', JStr ''2024-01-01T00:00:00.000Z''),
                (''source'', JStr ''website'')])
         (Inr [])])"
    by (simp add: lead_handler_def p1 b1 validateLeadData_JObj read_prop_def
        processLead_def now st triggerIntegrations_def t0 payload_after_new_manager Let_def)
  from lead_endpoint[OF p2, of env_ok new_manager] b2
  have bad: "lead_handler env_ok new_manager no_email_request =
     (\<lparr>status = 400, json = JObj [(''error'', JStr ''Invalid lead data'')]\<rparr>, [])"
    by (simp add: read_prop_def error_response_def)
  from lead_endpoint[OF p3, of env_ok new_manager] b3
  have null: "lead_handler env_ok new_manager null_body_request =
     (\<lparr>status = 500, json = JObj [(''error'', JStr ''Internal server error'')]\<rparr>, [])"
    by (simp add: error_response_def)
  from lead_endpoint[OF p1, of env_ok new_manager] ok bad null p1 b1 p2 b2 p3 b3
  show ?thesis by (simp add: read_prop_def)
qed

end
